theory Spec2Isabelle
  imports Main
begin

section \<open>Data model of resolve.py\<close>

text \<open>
  A domain name is the tuple of labels that dnspython keeps, leaf first, an absolute name
  ending with the empty root label: \<open>[''www'', ''example'', ''com'', '''']\<close>.
  The cache keys of the source are \<open>(str(name), qtype)\<close>; the presentation text of a name
  determines its labels (special characters are escaped), so the model keys the cache by
  the label sequence itself.
\<close>

type_synonym name = "string list"

type_synonym addr = string

datatype rdatatype = A | NS | CNAME | MX | AAAA | OTHER nat

text \<open>
  An rrset of dnspython holds only rdatas of its own type (adding one of another type is
  rejected), so the records of a set are kept by type: an A or AAAA set carries
  addresses, an NS or CNAME set carries targets, an MX set carries preference and exchange.
  The list may be empty, and \<open>rrset[0]\<close> on an empty set raises IndexError.
\<close>

datatype rdataset =
    A_records "addr list"
  | NS_records "name list"
  | CNAME_records "name list"
  | MX_records "(nat \<times> name) list"
  | AAAA_records "addr list"
  | OTHER_records nat

record rrset =
  name :: name
  rdata :: rdataset

definition rdtype :: "rrset \<Rightarrow> rdatatype" where
  "rdtype rs =
     (case rdata rs of
        A_records _ \<Rightarrow> A
      | NS_records _ \<Rightarrow> NS
      | CNAME_records _ \<Rightarrow> CNAME
      | MX_records _ \<Rightarrow> MX
      | AAAA_records _ \<Rightarrow> AAAA
      | OTHER_records t \<Rightarrow> OTHER t)"

type_synonym query = "name \<times> rdatatype"

record message =
  question :: "query list"
  answer :: "rrset list"
  authority :: "rrset list"
  additional :: "rrset list"

datatype exn = Timeout | OSError | IndexError | UnboundLocalError | OtherException nat

type_synonym cache_key = "name \<times> rdatatype"

type_synonym cache = "cache_key \<rightharpoonup> message"

text \<open>
  The global state a lookup works on: the dictionary \<open>CACHE\<close> and the network. The network
  is any state \<open>'n\<close> with a transport function: one call of \<open>dns.query.udp\<close> yields a
  response or raises, and leaves the network in a new state.
\<close>

record 'n world =
  cache :: cache
  net :: 'n

type_synonym 'n transport = "'n \<Rightarrow> query \<Rightarrow> addr \<Rightarrow> (exn + message) \<times> 'n"

type_synonym 'n lookup_fn =
  "'n world \<Rightarrow> name \<Rightarrow> rdatatype \<Rightarrow> ((exn + message) \<times> 'n world) option"

definition ROOT_SERVERS :: "addr list" where
  "ROOT_SERVERS =
     [''198.41.0.4'', ''199.9.14.201'', ''192.33.4.12'', ''199.7.91.13'',
      ''192.203.230.10'', ''192.5.5.241'', ''192.112.36.4'', ''198.97.190.53'',
      ''192.36.148.17'', ''192.58.128.30'', ''193.0.14.129'', ''199.7.83.42'',
      ''202.12.27.33'']"

definition make_query :: "name \<Rightarrow> rdatatype \<Rightarrow> query" where
  "make_query target qtype = (target, qtype)"

definition make_response :: "query \<Rightarrow> message" where
  "make_response q = \<lparr>question = [q], answer = [], authority = [], additional = []\<rparr>"

text \<open>\<open>CACHE[key] = value\<close>: an unconditional store.\<close>

definition put :: "cache_key \<Rightarrow> message \<Rightarrow> 'n world \<Rightarrow> 'n world" where
  "put key m w = w\<lparr>cache := (cache w)(key \<mapsto> m)\<rparr>"

text \<open>\<open>if key not in CACHE: CACHE[key] = value\<close>.\<close>

definition put_if_absent :: "cache_key \<Rightarrow> message \<Rightarrow> 'n world \<Rightarrow> 'n world" where
  "put_if_absent key m w = (case cache w key of None \<Rightarrow> put key m w | Some _ \<Rightarrow> w)"

section \<open>Reading record sets\<close>

text \<open>
  \<open>for rrset in section: if rrset.rdtype == NS: for rdata in rrset: append(rdata.target)\<close>
\<close>

fun ns_targets :: "rrset list \<Rightarrow> name list" where
  "ns_targets [] = []"
| "ns_targets (rs # rest) =
     (case rdata rs of NS_records ts \<Rightarrow> ts @ ns_targets rest | _ \<Rightarrow> ns_targets rest)"

text \<open>
  \<open>for rrset in section: if rrset.rdtype == A: for rdata in rrset: append(rdata.address)\<close>
\<close>

fun a_addresses :: "rrset list \<Rightarrow> addr list" where
  "a_addresses [] = []"
| "a_addresses (rs # rest) =
     (case rdata rs of A_records as \<Rightarrow> as @ a_addresses rest | _ \<Rightarrow> a_addresses rest)"

section \<open>Delegation locator (lookup, lines 119-148)\<close>

text \<open>The parents \<open>Name(labels[i:])\<close> for \<open>i\<close> in \<open>range(len(labels))\<close>.\<close>

definition parents :: "name \<Rightarrow> name list" where
  "parents labels = map (\<lambda>i. drop i labels) [0..<length labels]"

text \<open>
  Lines 127-142: the NS targets of a cached response, and for each target whose A key is
  cached the addresses of that cached response.
\<close>

fun cached_ips :: "cache \<Rightarrow> name list \<Rightarrow> addr list" where
  "cached_ips c [] = []"
| "cached_ips c (ns_name # rest) =
     (case c (ns_name, A) of
        None \<Rightarrow> cached_ips c rest
      | Some ns_response \<Rightarrow> a_addresses (answer ns_response) @ cached_ips c rest)"

definition cached_nameservers :: "cache \<Rightarrow> message \<Rightarrow> addr list" where
  "cached_nameservers c cached_response = cached_ips c (ns_targets (answer cached_response))"

text \<open>
  The loop over the parents. The variable \<open>nameservers\<close> starts as \<open>None\<close>, is assigned
  at every parent with a cached NS entry, and the loop breaks when it is non-empty.
\<close>

fun find_nameservers :: "cache \<Rightarrow> name list \<Rightarrow> addr list option \<Rightarrow> addr list option" where
  "find_nameservers c [] nameservers = nameservers"
| "find_nameservers c (parent # rest) nameservers =
     (case c (parent, NS) of
        None \<Rightarrow> find_nameservers c rest nameservers
      | Some cached_response \<Rightarrow>
          (let nameservers' = cached_nameservers c cached_response
           in if nameservers' \<noteq> [] then Some nameservers'
              else find_nameservers c rest (Some nameservers')))"

text \<open>Lines 147-148: \<open>if not nameservers: nameservers = list(ROOT_SERVERS)\<close>.\<close>

definition initial_nameservers :: "cache \<Rightarrow> name \<Rightarrow> addr list" where
  "initial_nameservers c target_name =
     (case find_nameservers c (parents target_name) None of
        None \<Rightarrow> ROOT_SERVERS
      | Some nameservers \<Rightarrow> if nameservers = [] then ROOT_SERVERS else nameservers)"

section \<open>One nameserver attempt (lookup, lines 155-241)\<close>

text \<open>
  What one pass through the body of \<open>for ns in nameservers\<close> does to the control flow:
  return a response from \<open>lookup\<close>, break out of the \<open>for\<close> loop with a new target and a
  new nameserver set (\<open>found_next = True\<close>), or go on to the next nameserver.
\<close>

datatype outcome = Return message | Break name "addr list" | Next

text \<open>
  Lines 210-217: the glue of a referral. Of every A set of the additional section the
  first address is appended, and the set is cached under its owner name unless that key
  is present. \<open>additional[0]\<close> on an empty set raises IndexError before anything is stored.
\<close>

fun collect_glue ::
  "query \<Rightarrow> rrset list \<Rightarrow> 'n world \<Rightarrow> addr list \<Rightarrow> (exn + addr list) \<times> 'n world" where
  "collect_glue q [] w new_nameservers = (Inr new_nameservers, w)"
| "collect_glue q (extra # rest) w new_nameservers =
     (case rdata extra of
        A_records addrs \<Rightarrow>
          (case addrs of
             [] \<Rightarrow> (Inl IndexError, w)
           | address # _ \<Rightarrow>
               collect_glue q rest
                 (put_if_absent (name extra, A)
                    ((make_response q)\<lparr>answer := [extra]\<rparr>) w)
                 (new_nameservers @ [address]))
      | _ \<Rightarrow> collect_glue q rest w new_nameservers)"

text \<open>
  Lines 220-230: the glueless delegation. Each NS target is looked up by a nested call of
  \<open>lookup\<close> (the parameter \<open>rec\<close>); an exception of the nested call is swallowed and the
  next target tried; the loop breaks as soon as \<open>new_nameservers\<close> is non-empty. A nested
  call that does not return makes the whole loop not return.
\<close>

fun glueless ::
  "'n lookup_fn \<Rightarrow> 'n world \<Rightarrow> name list \<Rightarrow> addr list \<Rightarrow> (addr list \<times> 'n world) option" where
  "glueless rec w [] new_nameservers = Some (new_nameservers, w)"
| "glueless rec w (ns_name # rest) new_nameservers =
     (case rec w ns_name A of
        None \<Rightarrow> None
      | Some (Inl e, w') \<Rightarrow> glueless rec w' rest new_nameservers
      | Some (Inr ns_response, w') \<Rightarrow>
          (let new_nameservers' = new_nameservers @ a_addresses (answer ns_response)
           in if new_nameservers' \<noteq> [] then Some (new_nameservers', w')
              else glueless rec w' rest new_nameservers'))"

text \<open>
  Lines 193-238: a response without answer and with a non-empty authority section.
\<close>

definition referral ::
  "'n lookup_fn \<Rightarrow> 'n world \<Rightarrow> cache_key \<Rightarrow> name \<Rightarrow> query \<Rightarrow> message \<Rightarrow>
   ((exn + outcome) \<times> 'n world) option" where
  "referral rec w cache_key current_target outbound_query response =
     (let ns_names = ns_targets (authority response)
      in if ns_names \<noteq> [] then
           (case authority response of
              [] \<Rightarrow> Some (Inl IndexError, w)
            | first # _ \<Rightarrow>
               (let w2 = put_if_absent (name first, NS)
                           ((make_response outbound_query)\<lparr>answer := authority response\<rparr>) w
                in case collect_glue outbound_query (additional response) w2 [] of
                     (Inl e, w3) \<Rightarrow> Some (Inl e, w3)
                   | (Inr glue, w3) \<Rightarrow>
                       if glue = [] then
                         (case glueless rec w3 ns_names [] of
                            None \<Rightarrow> None
                          | Some (new_nameservers, w4) \<Rightarrow>
                              if new_nameservers \<noteq> []
                              then Some (Inr (Break current_target new_nameservers), w4)
                              else Some (Inr Next, w4))
                       else Some (Inr (Break current_target glue), w3)))
         else Some (Inr (Return response), put cache_key response w))"

text \<open>
  Lines 167-190: a response with a non-empty answer section. For a CNAME query the
  response is stored and returned when some answer set is of type CNAME, and an empty
  response otherwise. For another type the first answer set of type CNAME restarts the
  walk at the root with \<open>answer[0].target\<close> as the target.
\<close>

definition answered ::
  "'n world \<Rightarrow> cache_key \<Rightarrow> rdatatype \<Rightarrow> query \<Rightarrow> message \<Rightarrow> (exn + outcome) \<times> 'n world" where
  "answered w cache_key qtype outbound_query response =
     (if qtype = CNAME then
        (case find (\<lambda>rs. rdtype rs = CNAME) (answer response) of
           Some _ \<Rightarrow> (Inr (Return response), put cache_key response w)
         | None \<Rightarrow>
             (let empty_response = make_response outbound_query
              in (Inr (Return empty_response), put cache_key empty_response w)))
      else
        (case find (\<lambda>rs. rdtype rs = CNAME) (answer response) of
           Some rs \<Rightarrow>
             (case rdata rs of
                CNAME_records (target # _) \<Rightarrow> (Inr (Break target ROOT_SERVERS), w)
              | _ \<Rightarrow> (Inl IndexError, w))
         | None \<Rightarrow> (Inr (Return response), put cache_key response w)))"

text \<open>
  The body of the outer \<open>try\<close>. \<open>Timeout\<close> and \<open>OSError\<close> of the transport are caught
  by the inner \<open>try\<close> (\<open>continue\<close>); any other exception leaves the body.
\<close>

definition attempt_body ::
  "'n lookup_fn \<Rightarrow> 'n transport \<Rightarrow> 'n world \<Rightarrow> cache_key \<Rightarrow> name \<Rightarrow> rdatatype \<Rightarrow> addr \<Rightarrow>
   ((exn + outcome) \<times> 'n world) option" where
  "attempt_body rec udp w cache_key current_target qtype ns =
     (let outbound_query = make_query current_target qtype
      in case udp (net w) outbound_query ns of
           (Inl e, n') \<Rightarrow>
             Some (if e = Timeout \<or> e = OSError then Inr Next else Inl e, w\<lparr>net := n'\<rparr>)
         | (Inr response, n') \<Rightarrow>
             (let w1 = w\<lparr>net := n'\<rparr>
              in if answer response \<noteq> [] then
                   Some (answered w1 cache_key qtype outbound_query response)
                 else if authority response \<noteq> [] then
                   referral rec w1 cache_key current_target outbound_query response
                 else Some (Inr Next, w1)))"

text \<open>Lines 240-241: \<open>except Exception: continue\<close>.\<close>

definition attempt ::
  "'n lookup_fn \<Rightarrow> 'n transport \<Rightarrow> 'n world \<Rightarrow> cache_key \<Rightarrow> name \<Rightarrow> rdatatype \<Rightarrow> addr \<Rightarrow>
   (outcome \<times> 'n world) option" where
  "attempt rec udp w cache_key current_target qtype ns =
     (case attempt_body rec udp w cache_key current_target qtype ns of
        None \<Rightarrow> None
      | Some (Inl e, w') \<Rightarrow> Some (Next, w')
      | Some (Inr out, w') \<Rightarrow> Some (out, w'))"

section \<open>The loops of lookup\<close>

text \<open>\<open>for ns in nameservers\<close>: ends with \<open>Next\<close> when the list is exhausted without a break.\<close>

fun try_nameservers ::
  "'n lookup_fn \<Rightarrow> 'n transport \<Rightarrow> 'n world \<Rightarrow> cache_key \<Rightarrow> name \<Rightarrow> rdatatype \<Rightarrow> addr list \<Rightarrow>
   (outcome \<times> 'n world) option" where
  "try_nameservers rec udp w cache_key current_target qtype [] = Some (Next, w)"
| "try_nameservers rec udp w cache_key current_target qtype (ns # rest) =
     (case attempt rec udp w cache_key current_target qtype ns of
        None \<Rightarrow> None
      | Some (Next, w') \<Rightarrow> try_nameservers rec udp w' cache_key current_target qtype rest
      | Some (out, w') \<Rightarrow> Some (out, w'))"

text \<open>
  \<open>while True\<close> (lines 152-246), one unit of fuel per cycle. \<open>outbound_query\<close> is the
  binding the variable has when the cycle starts (\<open>None\<close>: unbound); a cycle over a
  non-empty nameserver set rebinds it at every attempt. Line 244 reads the variable
  outside every \<open>try\<close>.
\<close>

fun resolve_loop ::
  "nat \<Rightarrow> 'n lookup_fn \<Rightarrow> 'n transport \<Rightarrow> 'n world \<Rightarrow> cache_key \<Rightarrow> name \<Rightarrow> rdatatype \<Rightarrow>
   addr list \<Rightarrow> query option \<Rightarrow> ((exn + message) \<times> 'n world) option" where
  "resolve_loop 0 rec udp w cache_key current_target qtype nameservers outbound_query = None"
| "resolve_loop (Suc fuel) rec udp w cache_key current_target qtype nameservers outbound_query =
     (let bound = (if nameservers = [] then outbound_query
                   else Some (make_query current_target qtype))
      in case try_nameservers rec udp w cache_key current_target qtype nameservers of
           None \<Rightarrow> None
         | Some (Return response, w') \<Rightarrow> Some (Inr response, w')
         | Some (Break current_target' nameservers', w') \<Rightarrow>
             resolve_loop fuel rec udp w' cache_key current_target' qtype nameservers' bound
         | Some (Next, w') \<Rightarrow>
             (case bound of
                None \<Rightarrow> Some (Inl UnboundLocalError, w')
              | Some q \<Rightarrow>
                  (let response = make_response q
                   in Some (Inr response, put cache_key response w'))))"

text \<open>
  \<open>lookup\<close>: the fuel bounds the cycles of the loop and the depth of the nested lookups;
  \<open>None\<close> is a lookup that has not returned within the fuel.
\<close>

primrec lookup :: "nat \<Rightarrow> 'n transport \<Rightarrow> 'n lookup_fn" where
  "lookup 0 udp = (\<lambda>w target_name qtype. None)"
| "lookup (Suc fuel) udp =
     (\<lambda>w target_name qtype.
        case cache w (target_name, qtype) of
          Some cached \<Rightarrow> Some (Inr cached, w)
        | None \<Rightarrow>
            resolve_loop fuel (lookup fuel udp) udp w (target_name, qtype) target_name qtype
              (initial_nameservers (cache w) target_name) None)"

section \<open>collect_results\<close>

text \<open>
  The entries of the result dictionary: \<open>{"name": ..., "alias": ...}\<close> for a CNAME step,
  \<open>{"name": ..., "address": ...}\<close> for A and AAAA, and
  \<open>{"name": ..., "preference": ..., "exchange": ...}\<close> for MX.
\<close>

record cname_result =
  cname_name :: name
  cname_alias :: name

record address_result =
  address_name :: name
  address :: addr

record mx_result =
  mx_name :: name
  preference :: nat
  exchange :: name

record full_response =
  res_CNAME :: "cname_result list"
  res_A :: "address_result list"
  res_AAAA :: "address_result list"
  res_MX :: "mx_result list"

text \<open>Lines 53-61: the target of the first record of type CNAME in the answer section.\<close>

fun first_cname :: "rrset list \<Rightarrow> name option" where
  "first_cname [] = None"
| "first_cname (answers # rest) =
     (case rdata answers of
        CNAME_records (target # _) \<Rightarrow> Some target
      | _ \<Rightarrow> first_cname rest)"

text \<open>
  Lines 49-64: the loop that follows the aliases, one unit of fuel per CNAME lookup.
  The lookup is a parameter; \<open>collect_results\<close> passes \<open>lookup\<close>.
\<close>

fun follow_cnames ::
  "nat \<Rightarrow> 'n lookup_fn \<Rightarrow> 'n world \<Rightarrow> name \<Rightarrow> cname_result list \<Rightarrow>
   ((exn + cname_result list \<times> name) \<times> 'n world) option" where
  "follow_cnames 0 lk w current_name cnames = None"
| "follow_cnames (Suc fuel) lk w current_name cnames =
     (case lk w current_name CNAME of
        None \<Rightarrow> None
      | Some (Inl e, w') \<Rightarrow> Some (Inl e, w')
      | Some (Inr response, w') \<Rightarrow>
          (case first_cname (answer response) of
             Some target \<Rightarrow>
               follow_cnames fuel lk w' target
                 (cnames @ [\<lparr>cname_name = target, cname_alias = current_name\<rparr>])
           | None \<Rightarrow> Some (Inr (cnames, current_name), w')))"

fun a_results :: "rrset list \<Rightarrow> address_result list" where
  "a_results [] = []"
| "a_results (answers # rest) =
     (case rdata answers of
        A_records as \<Rightarrow>
          map (\<lambda>a. \<lparr>address_name = name answers, address = a\<rparr>) as @ a_results rest
      | _ \<Rightarrow> a_results rest)"

fun aaaa_results :: "rrset list \<Rightarrow> address_result list" where
  "aaaa_results [] = []"
| "aaaa_results (answers # rest) =
     (case rdata answers of
        AAAA_records as \<Rightarrow>
          map (\<lambda>a. \<lparr>address_name = name answers, address = a\<rparr>) as @ aaaa_results rest
      | _ \<Rightarrow> aaaa_results rest)"

fun mx_results :: "rrset list \<Rightarrow> mx_result list" where
  "mx_results [] = []"
| "mx_results (answers # rest) =
     (case rdata answers of
        MX_records ms \<Rightarrow>
          map (\<lambda>(p, e). \<lparr>mx_name = name answers, preference = p, exchange = e\<rparr>) ms
            @ mx_results rest
      | _ \<Rightarrow> mx_results rest)"

text \<open>
  Lines 69-103: the three lookups of the final name and the result dictionary, whose
  keys \<open>"CNAME"\<close>, \<open>"A"\<close>, \<open>"AAAA"\<close> and \<open>"MX"\<close> are the fields of \<open>full_response\<close>. An
  exception of a lookup is not caught here.
\<close>

definition final_lookups ::
  "'n lookup_fn \<Rightarrow> 'n world \<Rightarrow> cname_result list \<Rightarrow> name \<Rightarrow>
   ((exn + full_response) \<times> 'n world) option" where
  "final_lookups lk w cnames final_name =
     (case lk w final_name A of
        None \<Rightarrow> None
      | Some (Inl e, w1) \<Rightarrow> Some (Inl e, w1)
      | Some (Inr ra, w1) \<Rightarrow>
         (case lk w1 final_name AAAA of
            None \<Rightarrow> None
          | Some (Inl e, w2) \<Rightarrow> Some (Inl e, w2)
          | Some (Inr raaaa, w2) \<Rightarrow>
             (case lk w2 final_name MX of
                None \<Rightarrow> None
              | Some (Inl e, w3) \<Rightarrow> Some (Inl e, w3)
              | Some (Inr rmx, w3) \<Rightarrow>
                  Some (Inr \<lparr>res_CNAME = cnames,
                             res_A = a_results (answer ra),
                             res_AAAA = aaaa_results (answer raaaa),
                             res_MX = mx_results (answer rmx)\<rparr>, w3))))"

definition collect_with ::
  "nat \<Rightarrow> 'n lookup_fn \<Rightarrow> 'n world \<Rightarrow> name \<Rightarrow> ((exn + full_response) \<times> 'n world) option" where
  "collect_with fuel lk w target_name =
     (case follow_cnames fuel lk w target_name [] of
        None \<Rightarrow> None
      | Some (Inl e, w') \<Rightarrow> Some (Inl e, w')
      | Some (Inr (cnames, final_name), w') \<Rightarrow> final_lookups lk w' cnames final_name)"

definition collect_results ::
  "nat \<Rightarrow> 'n transport \<Rightarrow> 'n world \<Rightarrow> name \<Rightarrow> ((exn + full_response) \<times> 'n world) option" where
  "collect_results fuel udp w target_name = collect_with fuel (lookup fuel udp) w target_name"

section \<open>The delegation locator in the words of the specification\<close>

text \<open>
  An ancestor is usable when the cache holds an NS entry for it and the address of at
  least one of its NS targets: the list of cached addresses of its targets is not empty.
\<close>

definition usable_parent :: "cache \<Rightarrow> name \<Rightarrow> bool" where
  "usable_parent c parent =
     (case c (parent, NS) of None \<Rightarrow> False | Some m \<Rightarrow> cached_nameservers c m \<noteq> [])"




section \<open>Failure of every nameserver of a set\<close>

text \<open>
  The nameservers of a set are queried in turn, each in the state in which the query
  before it has left the network. When every query raises in the transport, the result
  is the state of the network after the last one; when a query yields a response, there
  is none.
\<close>

fun transport_failures :: "'n transport \<Rightarrow> 'n \<Rightarrow> query \<Rightarrow> addr list \<Rightarrow> 'n option" where
  "transport_failures udp n q [] = Some n"
| "transport_failures udp n q (ns # rest) =
     (case udp n q ns of
        (Inl e, n') \<Rightarrow> transport_failures udp n' q rest
      | (Inr response, n') \<Rightarrow> None)"

section \<open>Lookups that keep the entries of the cache\<close>

text \<open>A lookup function keeps the entries when every entry present at a call is present,
  with the same value, when the call returns.\<close>

definition keeps_entries :: "'n lookup_fn \<Rightarrow> bool" where
  "keeps_entries rec =
     (\<forall>w t q r w' k v. rec w t q = Some (r, w') \<longrightarrow> cache w k = Some v \<longrightarrow> cache w' k = Some v)"

section \<open>Concrete networks and caches for the examples\<close>

text \<open>
  A network without state whose reply depends on the query and the nameserver only, a
  nested lookup that never returns, and the world with an empty cache.
\<close>

definition static_net :: "(query \<Rightarrow> addr \<Rightarrow> exn + message) \<Rightarrow> unit transport" where
  "static_net f = (\<lambda>n q ns. (f q ns, n))"

definition no_lookup :: "unit lookup_fn" where
  "no_lookup = (\<lambda>w target_name qtype. None)"

definition empty_world :: "unit world" where
  "empty_world = \<lparr>cache = Map.empty, net = ()\<rparr>"

subsection \<open>The address of a nameserver that is its own glue\<close>

text \<open>
  The first root server refers the query for \<open>ns1.example.com.\<close> to the zone
  \<open>example.com.\<close>, whose nameserver is \<open>ns1.example.com.\<close> itself with the glue
  address 10.0.0.1; that server answers with the address 10.0.0.9.
\<close>

definition ns1_name :: name where
  "ns1_name = [''ns1'', ''example'', ''com'', '''']"

definition ns1_referral :: message where
  "ns1_referral =
     \<lparr>question = [(ns1_name, A)], answer = [],
      authority = [\<lparr>name = [''example'', ''com'', ''''], rdata = NS_records [ns1_name]\<rparr>],
      additional = [\<lparr>name = ns1_name, rdata = A_records [''10.0.0.1'']\<rparr>]\<rparr>"

definition ns1_answer :: message where
  "ns1_answer =
     \<lparr>question = [(ns1_name, A)],
      answer = [\<lparr>name = ns1_name, rdata = A_records [''10.0.0.9'']\<rparr>],
      authority = [], additional = []\<rparr>"

definition ns1_glue_entry :: message where
  "ns1_glue_entry =
     \<lparr>question = [(ns1_name, A)],
      answer = [\<lparr>name = ns1_name, rdata = A_records [''10.0.0.1'']\<rparr>],
      authority = [], additional = []\<rparr>"

definition ns1_net :: "unit transport" where
  "ns1_net = static_net (\<lambda>q ns.
     if q = (ns1_name, A) \<and> ns = ''198.41.0.4'' then Inr ns1_referral
     else if q = (ns1_name, A) \<and> ns = ''10.0.0.1'' then Inr ns1_answer
     else Inl Timeout)"

subsection \<open>Replies for \<open>www.example.com.\<close>\<close>

definition host_name :: name where
  "host_name = [''www'', ''example'', ''com'', '''']"

definition apex_name :: name where
  "apex_name = [''example'', ''com'', '''']"

text \<open>A reply with three empty sections, and a reply with an address.\<close>

definition bare_reply :: message where
  "bare_reply = \<lparr>question = [(host_name, A)], answer = [], authority = [], additional = []\<rparr>"

definition host_answer :: message where
  "host_answer =
     \<lparr>question = [(host_name, A)],
      answer = [\<lparr>name = host_name, rdata = A_records [''93.184.216.34'']\<rparr>],
      authority = [], additional = []\<rparr>"

text \<open>The first root server sends the bare reply, the second one the address.\<close>

definition bare_net :: "unit transport" where
  "bare_net = static_net (\<lambda>q ns.
     if q = (host_name, A) \<and> ns = ''198.41.0.4'' then Inr bare_reply
     else if q = (host_name, A) \<and> ns = ''199.9.14.201'' then Inr host_answer
     else Inl Timeout)"

text \<open>
  A reply without answer whose authority section holds a record set of type 6 (SOA) and
  no NS set, sent by the first root server.
\<close>

definition nodata_reply :: message where
  "nodata_reply =
     \<lparr>question = [(host_name, AAAA)], answer = [],
      authority = [\<lparr>name = apex_name, rdata = OTHER_records 6\<rparr>], additional = []\<rparr>"

definition nodata_net :: "unit transport" where
  "nodata_net = static_net (\<lambda>q ns.
     if q = (host_name, AAAA) \<and> ns = ''198.41.0.4'' then Inr nodata_reply
     else Inl Timeout)"

text \<open>A network on which every query times out.\<close>

definition dead_net :: "unit transport" where
  "dead_net = static_net (\<lambda>q ns. Inl Timeout)"

text \<open>
  A network that counts down: every query times out while the count is positive, and
  the count is the state. At the count zero it answers.
\<close>

definition flaky_net :: "nat transport" where
  "flaky_net = (\<lambda>n q ns. (if n = 0 then Inr host_answer else Inl Timeout, n - 1))"

text \<open>
  Replies to CNAME queries: \<open>www.example.com.\<close> is an alias of \<open>example.com.\<close>; the
  CNAME query for \<open>example.com.\<close> is answered with an address set.
\<close>

definition host_cname_reply :: message where
  "host_cname_reply =
     \<lparr>question = [(host_name, CNAME)],
      answer = [\<lparr>name = host_name, rdata = CNAME_records [apex_name]\<rparr>],
      authority = [], additional = []\<rparr>"

definition apex_cname_reply :: message where
  "apex_cname_reply =
     \<lparr>question = [(apex_name, CNAME)],
      answer = [\<lparr>name = apex_name, rdata = A_records [''93.184.216.34'']\<rparr>],
      authority = [], additional = []\<rparr>"

definition cname_net :: "unit transport" where
  "cname_net = static_net (\<lambda>q ns.
     if q = (host_name, CNAME) \<and> ns = ''198.41.0.4'' then Inr host_cname_reply
     else if q = (apex_name, CNAME) \<and> ns = ''198.41.0.4'' then Inr apex_cname_reply
     else Inl Timeout)"

text \<open>
  Replies to address queries: \<open>www.example.com.\<close> is an alias of \<open>example.com.\<close>, which
  has an address. Both replies come from the first root server.
\<close>

definition host_alias_reply :: message where
  "host_alias_reply =
     \<lparr>question = [(host_name, A)],
      answer = [\<lparr>name = host_name, rdata = CNAME_records [apex_name]\<rparr>],
      authority = [], additional = []\<rparr>"

definition apex_answer :: message where
  "apex_answer =
     \<lparr>question = [(apex_name, A)],
      answer = [\<lparr>name = apex_name, rdata = A_records [''93.184.216.34'']\<rparr>],
      authority = [], additional = []\<rparr>"

definition alias_net :: "unit transport" where
  "alias_net = static_net (\<lambda>q ns.
     if q = (host_name, A) \<and> ns = ''198.41.0.4'' then Inr host_alias_reply
     else if q = (apex_name, A) \<and> ns = ''198.41.0.4'' then Inr apex_answer
     else Inl Timeout)"

subsection \<open>Referrals\<close>

definition com_name :: name where
  "com_name = [''com'', '''']"

definition tld_ns_name :: name where
  "tld_ns_name = [''a'', ''gtld-servers'', ''net'', '''']"

text \<open>The first root server refers to the zone \<open>com.\<close> with the glue of its nameserver.\<close>

definition com_referral :: message where
  "com_referral =
     \<lparr>question = [(host_name, A)], answer = [],
      authority = [\<lparr>name = com_name, rdata = NS_records [tld_ns_name]\<rparr>],
      additional = [\<lparr>name = tld_ns_name, rdata = A_records [''192.5.6.30'']\<rparr>]\<rparr>"

definition glue_net :: "unit transport" where
  "glue_net = static_net (\<lambda>q ns.
     if q = (host_name, A) \<and> ns = ''198.41.0.4'' then Inr com_referral
     else Inl Timeout)"

text \<open>
  A referral without glue to two nameservers. The address lookup of the first one ends
  with a reply without addresses, the address lookup of the second one with an address.
\<close>

definition lost_ns_name :: name where
  "lost_ns_name = [''ns'', ''lost'', ''org'', '''']"

definition good_ns_name :: name where
  "good_ns_name = [''ns'', ''good'', ''org'', '''']"

definition bare_referral :: message where
  "bare_referral =
     \<lparr>question = [(host_name, A)], answer = [],
      authority = [\<lparr>name = apex_name, rdata = NS_records [lost_ns_name, good_ns_name]\<rparr>],
      additional = []\<rparr>"

definition lost_ns_reply :: message where
  "lost_ns_reply =
     \<lparr>question = [(lost_ns_name, A)], answer = [],
      authority = [\<lparr>name = [''org'', ''''], rdata = OTHER_records 6\<rparr>], additional = []\<rparr>"

definition good_ns_answer :: message where
  "good_ns_answer =
     \<lparr>question = [(good_ns_name, A)],
      answer = [\<lparr>name = good_ns_name, rdata = A_records [''10.0.0.53'']\<rparr>],
      authority = [], additional = []\<rparr>"

definition glueless_net :: "unit transport" where
  "glueless_net = static_net (\<lambda>q ns.
     if q = (host_name, A) \<and> ns = ''198.41.0.4'' then Inr bare_referral
     else if q = (lost_ns_name, A) \<and> ns = ''198.41.0.4'' then Inr lost_ns_reply
     else if q = (good_ns_name, A) \<and> ns = ''198.41.0.4'' then Inr good_ns_answer
     else Inl Timeout)"

text \<open>
  A referral to the nameserver \<open>ns1.example.com.\<close> whose additional section holds no
  address of that nameserver, and two addresses of a name that is not a nameserver of
  the zone.
\<close>

definition stray_name :: name where
  "stray_name = [''stray'', ''test'', '''']"

definition stray_referral :: message where
  "stray_referral =
     \<lparr>question = [(host_name, A)], answer = [],
      authority = [\<lparr>name = apex_name, rdata = NS_records [ns1_name]\<rparr>],
      additional = [\<lparr>name = stray_name, rdata = A_records [''203.0.113.6'', ''203.0.113.7'']\<rparr>]\<rparr>"

definition stray_net :: "unit transport" where
  "stray_net = static_net (\<lambda>q ns.
     if q = (host_name, A) \<and> ns = ''198.41.0.4'' then Inr stray_referral
     else Inl Timeout)"

text \<open>The worlds these referrals leave behind.\<close>

definition glue_world :: "unit world" where
  "glue_world =
     \<lparr>cache =
        [(com_name, NS) \<mapsto>
           \<lparr>question = [(host_name, A)], answer = authority com_referral,
              authority = [], additional = []\<rparr>,
         (tld_ns_name, A) \<mapsto>
           \<lparr>question = [(host_name, A)], answer = additional com_referral,
              authority = [], additional = []\<rparr>],
      net = ()\<rparr>"

definition referral_world :: "unit world" where
  "referral_world =
     \<lparr>cache =
        [(apex_name, NS) \<mapsto>
           \<lparr>question = [(host_name, A)], answer = authority bare_referral,
              authority = [], additional = []\<rparr>],
      net = ()\<rparr>"

definition lost_world :: "unit world" where
  "lost_world = referral_world\<lparr>cache := (cache referral_world)((lost_ns_name, A) \<mapsto> lost_ns_reply)\<rparr>"

definition good_world :: "unit world" where
  "good_world = lost_world\<lparr>cache := (cache lost_world)((good_ns_name, A) \<mapsto> good_ns_answer)\<rparr>"

subsection \<open>A glueless referral that resolves no nameserver\<close>

text \<open>
  The cache holds the delegation of \<open>com.\<close> with two addresses of its nameserver. The
  first of these servers refers \<open>www.example.com.\<close> to a nameserver without glue whose
  address lookup yields no address; the second one answers.
\<close>

definition com_ns_entry :: message where
  "com_ns_entry =
     \<lparr>question = [(host_name, A)],
      answer = [\<lparr>name = com_name, rdata = NS_records [tld_ns_name]\<rparr>],
      authority = [], additional = []\<rparr>"

definition tld_ns_entry :: message where
  "tld_ns_entry =
     \<lparr>question = [(host_name, A)],
      answer = [\<lparr>name = tld_ns_name, rdata = A_records [''192.5.6.30'', ''192.33.14.30'']\<rparr>],
      authority = [], additional = []\<rparr>"

definition delegated_world :: "unit world" where
  "delegated_world =
     \<lparr>cache = [(com_name, NS) \<mapsto> com_ns_entry, (tld_ns_name, A) \<mapsto> tld_ns_entry],
      net = ()\<rparr>"

definition stalled_referral :: message where
  "stalled_referral =
     \<lparr>question = [(host_name, A)], answer = [],
      authority = [\<lparr>name = apex_name, rdata = NS_records [lost_ns_name]\<rparr>],
      additional = []\<rparr>"

definition stalled_net :: "unit transport" where
  "stalled_net = static_net (\<lambda>q ns.
     if q = (host_name, A) \<and> ns = ''192.5.6.30'' then Inr stalled_referral
     else if q = (lost_ns_name, A) \<and> ns = ''198.41.0.4'' then Inr lost_ns_reply
     else if q = (host_name, A) \<and> ns = ''192.33.14.30'' then Inr host_answer
     else Inl Timeout)"

definition zone_world :: "unit world" where
  "zone_world =
     put (apex_name, NS) ((make_response (host_name, A))\<lparr>answer := authority stalled_referral\<rparr>)
       delegated_world"

definition stalled_world :: "unit world" where
  "stalled_world = put (lost_ns_name, A) lost_ns_reply zone_world"

subsection \<open>An alias chain\<close>

text \<open>
  \<open>www.example.com.\<close> is an alias of \<open>web.example.net.\<close>, which is an alias of
  \<open>edge.cdn.org.\<close>, which has an address, an IPv6 address and a mail exchanger and no
  CNAME record. The first root server answers every query.
\<close>

definition web_name :: name where
  "web_name = [''web'', ''example'', ''net'', '''']"

definition edge_name :: name where
  "edge_name = [''edge'', ''cdn'', ''org'', '''']"

definition host_to_web :: message where
  "host_to_web =
     \<lparr>question = [(host_name, CNAME)],
      answer = [\<lparr>name = host_name, rdata = CNAME_records [web_name]\<rparr>],
      authority = [], additional = []\<rparr>"

definition web_to_edge :: message where
  "web_to_edge =
     \<lparr>question = [(web_name, CNAME)],
      answer = [\<lparr>name = web_name, rdata = CNAME_records [edge_name]\<rparr>],
      authority = [], additional = []\<rparr>"

definition edge_no_cname :: message where
  "edge_no_cname =
     \<lparr>question = [(edge_name, CNAME)], answer = [],
      authority = [\<lparr>name = [''cdn'', ''org'', ''''], rdata = OTHER_records 6\<rparr>],
      additional = []\<rparr>"

definition edge_a :: message where
  "edge_a =
     \<lparr>question = [(edge_name, A)],
      answer = [\<lparr>name = edge_name, rdata = A_records [''203.0.113.7'']\<rparr>],
      authority = [], additional = []\<rparr>"

definition edge_aaaa :: message where
  "edge_aaaa =
     \<lparr>question = [(edge_name, AAAA)],
      answer = [\<lparr>name = edge_name, rdata = AAAA_records [''2001:db8::7'']\<rparr>],
      authority = [], additional = []\<rparr>"

definition edge_mx :: message where
  "edge_mx =
     \<lparr>question = [(edge_name, MX)],
      answer = [\<lparr>name = edge_name, rdata = MX_records [(10, [''mail'', ''cdn'', ''org'', ''''])]\<rparr>],
      authority = [], additional = []\<rparr>"

definition chain_net :: "unit transport" where
  "chain_net = static_net (\<lambda>q ns.
     if ns \<noteq> ''198.41.0.4'' then Inl Timeout
     else if q = (host_name, CNAME) then Inr host_to_web
     else if q = (web_name, CNAME) then Inr web_to_edge
     else if q = (edge_name, CNAME) then Inr edge_no_cname
     else if q = (edge_name, A) then Inr edge_a
     else if q = (edge_name, AAAA) then Inr edge_aaaa
     else if q = (edge_name, MX) then Inr edge_mx
     else Inl Timeout)"

text \<open>The worlds after each lookup of the chain, and after the lookups of the final name.\<close>

definition chain_world :: "unit world" where
  "chain_world =
     put (edge_name, CNAME) edge_no_cname
       (put (web_name, CNAME) web_to_edge
          (put (host_name, CNAME) host_to_web empty_world))"

definition final_world :: "unit world \<Rightarrow> unit world" where
  "final_world w =
     put (edge_name, MX) edge_mx (put (edge_name, AAAA) edge_aaaa (put (edge_name, A) edge_a w))"

subsection \<open>Exceptions\<close>

text \<open>
  The transport raises an exception that is neither a timeout nor an I/O error at the
  first root server, and the second root server answers. For the AAAA query the first
  root server sends an answer whose CNAME set holds no record, so that \<open>answer[0]\<close>
  raises. The nested lookup \<open>raising_lookup\<close> raises at every call.
\<close>

definition hollow_alias_reply :: message where
  "hollow_alias_reply =
     \<lparr>question = [(host_name, AAAA)],
      answer = [\<lparr>name = host_name, rdata = CNAME_records []\<rparr>],
      authority = [], additional = []\<rparr>"

definition faulty_net :: "unit transport" where
  "faulty_net = static_net (\<lambda>q ns.
     if q = (host_name, A) \<and> ns = ''198.41.0.4'' then Inl (OtherException 0)
     else if q = (host_name, A) \<and> ns = ''199.9.14.201'' then Inr host_answer
     else if q = (host_name, AAAA) \<and> ns = ''198.41.0.4'' then Inr hollow_alias_reply
     else Inl Timeout)"

definition raising_lookup :: "unit lookup_fn" where
  "raising_lookup = (\<lambda>w target_name qtype. Some (Inl (OtherException 1), w))"

section \<open>The delegation locator\<close>

text \<open>
  In the loop of the source the variable \<open>nameservers\<close> is \<open>None\<close> or an empty list
  whenever the next parent is examined.
\<close>

lemma find_nameservers_find:
  "acc = None \<or> acc = Some [] \<Longrightarrow>
   (case find_nameservers c ps acc of
      None \<Rightarrow> ROOT_SERVERS
    | Some n \<Rightarrow> if n = [] then ROOT_SERVERS else n) =
   (case find (usable_parent c) ps of
      None \<Rightarrow> ROOT_SERVERS
    | Some parent \<Rightarrow>
        (case c (parent, NS) of None \<Rightarrow> ROOT_SERVERS | Some m \<Rightarrow> cached_nameservers c m))"
proof (induction ps arbitrary: acc)
  case Nil
  then show ?case by auto
next
  case (Cons p ps)
  show ?case
  proof (cases "c (p, NS)")
    case None
    then show ?thesis using Cons.IH [OF Cons.prems] by (simp add: usable_parent_def)
  next
    case (Some m)
    show ?thesis
    proof (cases "cached_nameservers c m = []")
      case True
      then show ?thesis using Some Cons.IH [of "Some []"] by (simp add: usable_parent_def)
    next
      case False
      then show ?thesis using Some by (simp add: usable_parent_def)
    qed
  qed
qed









section \<open>One attempt\<close>

lemmas attempt_defs =
  attempt_def attempt_body_def referral_def answered_def make_query_def make_response_def
  put_def put_if_absent_def rdtype_def Let_def

lemmas scenario_defs =
  static_net_def no_lookup_def empty_world_def ROOT_SERVERS_def initial_nameservers_def
  parents_def upt_rec

lemma ROOT_SERVERS_nonempty: "ROOT_SERVERS \<noteq> []"
  by (simp add: ROOT_SERVERS_def)

lemma initial_nameservers_nonempty: "initial_nameservers c target_name \<noteq> []"
  by (auto simp: initial_nameservers_def ROOT_SERVERS_nonempty split: option.splits)

lemma attempt_transport_error:
  "udp (net w) (make_query tgt qtype) ns = (Inl e, n') \<Longrightarrow>
   attempt rec udp w key tgt qtype ns = Some (Next, w\<lparr>net := n'\<rparr>)"
  by (simp add: attempt_def attempt_body_def)

lemma attempt_no_sections:
  "udp (net w) (make_query tgt qtype) ns = (Inr response, n') \<Longrightarrow>
   answer response = [] \<Longrightarrow> authority response = [] \<Longrightarrow>
   attempt rec udp w key tgt qtype ns = Some (Next, w\<lparr>net := n'\<rparr>)"
  by (simp add: attempt_def attempt_body_def)

lemma attempt_no_ns:
  "udp (net w) (make_query tgt qtype) ns = (Inr response, n') \<Longrightarrow>
   answer response = [] \<Longrightarrow> authority response \<noteq> [] \<Longrightarrow>
   ns_targets (authority response) = [] \<Longrightarrow>
   attempt rec udp w key tgt qtype ns =
     Some (Return response, put key response (w\<lparr>net := n'\<rparr>))"
  by (simp add: attempt_def attempt_body_def referral_def)

lemma answered_Return_cache:
  "answered w key qtype q response = (Inr (Return r), w') \<Longrightarrow> w' = put key r w"
  by (auto simp: answered_def Let_def
      split: if_splits option.splits rdataset.splits list.splits)

lemma answered_Break:
  "answered w key qtype q response = (Inr (Break t nss), w') \<Longrightarrow>
   nss = ROOT_SERVERS \<and> w' = w"
  by (auto simp: answered_def Let_def
      split: if_splits option.splits rdataset.splits list.splits)

lemma referral_Return:
  "referral rec w key tgt q response = Some (Inr (Return r), w') \<Longrightarrow>
   r = response \<and> w' = put key r w"
  by (auto simp: referral_def Let_def
      split: if_splits option.splits list.splits prod.splits sum.splits)

lemma referral_Break:
  "referral rec w key tgt q response = Some (Inr (Break t nss), w') \<Longrightarrow>
   t = tgt \<and> nss \<noteq> []"
  by (auto simp: referral_def Let_def
      split: if_splits option.splits list.splits prod.splits sum.splits)

text \<open>A response is returned only after it has been stored under the key of the lookup.\<close>

lemma attempt_Return_cache:
  "attempt rec udp w key tgt qtype ns = Some (Return r, w') \<Longrightarrow>
   cache w' = (cache w)(key \<mapsto> r)"
  by (auto simp: attempt_def attempt_body_def Let_def put_def
      split: if_splits option.splits prod.splits sum.splits
      dest!: answered_Return_cache referral_Return)

lemma attempt_Break_nonempty:
  "attempt rec udp w key tgt qtype ns = Some (Break t nss, w') \<Longrightarrow> nss \<noteq> []"
  by (auto simp: attempt_def attempt_body_def Let_def ROOT_SERVERS_nonempty
      split: if_splits option.splits prod.splits sum.splits
      dest!: answered_Break referral_Break)

section \<open>The loops\<close>

lemma try_nameservers_Return_cache:
  "try_nameservers rec udp w key tgt qtype nss = Some (Return r, w') \<Longrightarrow>
   cache w' key = Some r"
proof (induction nss arbitrary: w)
  case Nil
  then show ?case by simp
next
  case (Cons ns rest)
  then show ?case
    by (auto split: option.splits prod.splits outcome.splits dest: attempt_Return_cache)
qed

lemma try_nameservers_Break_nonempty:
  "try_nameservers rec udp w key tgt qtype nss = Some (Break t nss', w') \<Longrightarrow> nss' \<noteq> []"
proof (induction nss arbitrary: w)
  case Nil
  then show ?case by simp
next
  case (Cons ns rest)
  then show ?case
    by (auto split: option.splits prod.splits outcome.splits dest: attempt_Break_nonempty)
qed

text \<open>Whatever the loop returns is stored under the key of the lookup.\<close>

lemma resolve_loop_result_cached:
  "resolve_loop fuel rec udp w key tgt qtype nss oq = Some (Inr r, w') \<Longrightarrow>
   cache w' key = Some r"
proof (induction fuel arbitrary: w tgt nss oq)
  case 0
  then show ?case by simp
next
  case (Suc fuel)
  then show ?case
    by (auto simp: Let_def put_def split: option.splits prod.splits outcome.splits if_splits
        dest: try_nameservers_Return_cache)
qed

text \<open>
  The loop raises only when it is entered with an empty nameserver set and no query has
  been built yet.
\<close>

lemma resolve_loop_exception:
  "resolve_loop fuel rec udp w key tgt qtype nss oq = Some (Inl e, w') \<Longrightarrow>
   nss = [] \<and> oq = None"
proof (induction fuel arbitrary: w tgt nss oq)
  case 0
  then show ?case by simp
next
  case (Suc fuel)
  show ?case
  proof (cases "try_nameservers rec udp w key tgt qtype nss")
    case None
    then show ?thesis using Suc.prems by simp
  next
    case (Some p)
    obtain out w1 where p: "p = (out, w1)" by (cases p)
    show ?thesis
    proof (cases out)
      case (Return r)
      then show ?thesis using Suc.prems Some p by simp
    next
      case (Break t nss')
      then have "nss' \<noteq> []" using Some p by (auto dest: try_nameservers_Break_nonempty)
      moreover have "resolve_loop fuel rec udp w1 key t qtype nss'
           (if nss = [] then oq else Some (make_query tgt qtype)) = Some (Inl e, w')"
        using Suc.prems Some p Break by (simp add: Let_def)
      ultimately show ?thesis using Suc.IH by blast
    next
      case Next
      then show ?thesis using Suc.prems Some p
        by (auto simp: Let_def split: option.splits if_splits)
    qed
  qed
qed

lemma lookup_never_raises: "lookup fuel udp w target_name qtype \<noteq> Some (Inl e, w')"
proof (cases fuel)
  case 0
  then show ?thesis by simp
next
  case (Suc f)
  then show ?thesis
    using initial_nameservers_nonempty [of "cache w" target_name]
    by (auto split: option.splits dest: resolve_loop_exception)
qed

text \<open>A key that is in the cache is served from the cache, and the cache stays as it is.\<close>

lemma lookup_cached:
  "cache w (target_name, qtype) = Some r \<Longrightarrow>
   lookup (Suc fuel) udp w target_name qtype = Some (Inr r, w)"
  by simp

lemma try_nameservers_transport_failures:
  "transport_failures udp (net w) (make_query tgt qtype) nss = Some n' \<Longrightarrow>
   try_nameservers rec udp w key tgt qtype nss = Some (Next, w\<lparr>net := n'\<rparr>)"
proof (induction nss arbitrary: w)
  case Nil
  then show ?case by simp
next
  case (Cons ns rest)
  obtain reply n1 where u: "udp (net w) (make_query tgt qtype) ns = (reply, n1)"
    by (cases "udp (net w) (make_query tgt qtype) ns")
  show ?case
  proof (cases reply)
    case (Inl e)
    have a: "attempt rec udp w key tgt qtype ns = Some (Next, w\<lparr>net := n1\<rparr>)"
      using u Inl by (simp add: attempt_transport_error)
    have "transport_failures udp (net (w\<lparr>net := n1\<rparr>)) (make_query tgt qtype) rest = Some n'"
      using Cons.prems u Inl by simp
    then have "try_nameservers rec udp (w\<lparr>net := n1\<rparr>) key tgt qtype rest
        = Some (Next, w\<lparr>net := n1\<rparr>\<lparr>net := n'\<rparr>)"
      by (rule Cons.IH)
    then show ?thesis
      using a by simp
  next
    case (Inr response)
    then show ?thesis
      using Cons.prems u by simp
  qed
qed

section \<open>The cache\<close>

text \<open>
  An entry that is in the cache when a lookup starts is in the cache, with the same value,
  when the lookup returns: the writes of a referral test the key first, and the final
  write goes to the key of the lookup, which was absent when the lookup started.
\<close>

lemma put_if_absent_preserves:
  "cache w k = Some v \<Longrightarrow> cache (put_if_absent k' m w) k = Some v"
  by (auto simp: put_if_absent_def put_def split: option.splits)

lemma collect_glue_preserves:
  "collect_glue q xs w acc = (res, w') \<Longrightarrow> cache w k = Some v \<Longrightarrow> cache w' k = Some v"
proof (induction xs arbitrary: w acc)
  case Nil
  then show ?case by simp
next
  case (Cons x xs)
  note prems = Cons.prems and IH = Cons.IH
  show ?case
  proof (cases "rdata x")
    case (A_records addrs)
    show ?thesis
    proof (cases addrs)
      case Nil
      then show ?thesis using prems A_records by simp
    next
      case (Cons a more_addrs)
      then show ?thesis
        using prems A_records
          IH [of "put_if_absent (name x, A) ((make_response q)\<lparr>answer := [x]\<rparr>) w" "acc @ [a]"]
        by (simp add: put_if_absent_preserves)
    qed
  qed (use prems IH in simp_all)
qed

lemma glueless_preserves:
  assumes "keeps_entries rec"
  shows "glueless rec w names acc = Some (res, w') \<Longrightarrow> cache w k = Some v \<Longrightarrow>
         cache w' k = Some v"
proof (induction names arbitrary: w acc)
  case Nil
  then show ?case by simp
next
  case (Cons n names)
  show ?case
  proof (cases "rec w n A")
    case None
    then show ?thesis using Cons.prems by simp
  next
    case (Some p)
    obtain r w1 where p: "p = (r, w1)" by (cases p)
    have w1: "cache w1 k = Some v"
      using assms Some p Cons.prems(2) unfolding keeps_entries_def by blast
    show ?thesis
    proof (cases r)
      case (Inl e)
      then show ?thesis using Cons.prems(1) Some p Cons.IH [OF _ w1] by simp
    next
      case (Inr m)
      then show ?thesis using Cons.prems(1) Some p Cons.IH [OF _ w1] w1
        by (auto simp: Let_def split: if_splits)
    qed
  qed
qed

lemma answered_preserves:
  "answered w key qtype q response = (res, w') \<Longrightarrow> k \<noteq> key \<Longrightarrow> cache w k = Some v \<Longrightarrow>
   cache w' k = Some v"
  by (auto simp: answered_def Let_def put_def
      split: if_splits option.splits rdataset.splits list.splits)

lemma referral_preserves:
  assumes "keeps_entries rec"
    and "referral rec w key tgt q response = Some (res, w')"
    and "k \<noteq> key" and "cache w k = Some v"
  shows "cache w' k = Some v"
proof (cases "ns_targets (authority response) = []")
  case True
  then show ?thesis
    using assms(2-4) by (auto simp: referral_def put_def)
next
  case False
  show ?thesis
  proof (cases "authority response")
    case Nil
    then show ?thesis using assms(2,4) False by (simp add: referral_def)
  next
    case (Cons first others)
    define w2 where "w2 = put_if_absent (name first, NS)
       ((make_response q)\<lparr>answer := authority response\<rparr>) w"
    have c2: "cache w2 k = Some v"
      unfolding w2_def using assms(4) by (rule put_if_absent_preserves)
    obtain g w3 where g: "collect_glue q (additional response) w2 [] = (g, w3)"
      by (cases "collect_glue q (additional response) w2 []")
    have c3: "cache w3 k = Some v"
      using collect_glue_preserves [OF g c2] .
    have r: "referral rec w key tgt q response =
        (case (g, w3) of
           (Inl e, w3) \<Rightarrow> Some (Inl e, w3)
         | (Inr glue, w3) \<Rightarrow>
             if glue = [] then
               (case glueless rec w3 (ns_targets (authority response)) [] of
                  None \<Rightarrow> None
                | Some (new_nameservers, w4) \<Rightarrow>
                    if new_nameservers \<noteq> []
                    then Some (Inr (Break tgt new_nameservers), w4)
                    else Some (Inr Next, w4))
             else Some (Inr (Break tgt glue), w3))"
      unfolding referral_def Let_def using False g [unfolded w2_def]
      by (simp add: Cons)
    show ?thesis
    proof (cases g)
      case (Inl e)
      then show ?thesis using r assms(2) c3 by simp
    next
      case (Inr glue)
      show ?thesis
      proof (cases "glue = []")
        case False
        then show ?thesis using r assms(2) c3 Inr by simp
      next
        case True
        then show ?thesis
          using r assms(2) Inr glueless_preserves [OF assms(1) _ c3]
          by (auto split: option.splits prod.splits if_splits)
      qed
    qed
  qed
qed

lemma attempt_preserves:
  assumes "keeps_entries rec"
    and "attempt rec udp w key tgt qtype ns = Some (out, w')"
    and "k \<noteq> key" and "cache w k = Some v"
  shows "cache w' k = Some v"
proof -
  obtain reply n' where u: "udp (net w) (make_query tgt qtype) ns = (reply, n')"
    by (cases "udp (net w) (make_query tgt qtype) ns")
  have c1: "cache (w\<lparr>net := n'\<rparr>) k = Some v"
    using assms(4) by simp
  show ?thesis
  proof (cases reply)
    case (Inl e)
    then show ?thesis
      using u assms(2) c1 by (auto simp: attempt_def attempt_body_def split: if_splits)
  next
    case (Inr response)
    show ?thesis
    proof (cases "answer response = []")
      case False
      obtain res wa where a: "answered (w\<lparr>net := n'\<rparr>) key qtype (make_query tgt qtype) response
          = (res, wa)"
        by (cases "answered (w\<lparr>net := n'\<rparr>) key qtype (make_query tgt qtype) response")
      have "cache wa k = Some v"
        using answered_preserves [OF a assms(3) c1] .
      then show ?thesis
        using u Inr False a assms(2)
        by (auto simp: attempt_def attempt_body_def split: sum.splits)
    next
      case True
      show ?thesis
      proof (cases "authority response = []")
        case True
        then show ?thesis
          using u Inr \<open>answer response = []\<close> assms(2) c1
          by (auto simp: attempt_def attempt_body_def)
      next
        case False
        then show ?thesis
          using u Inr True assms(2) referral_preserves [OF assms(1) _ assms(3) c1]
          by (auto simp: attempt_def attempt_body_def split: option.splits prod.splits sum.splits)
      qed
    qed
  qed
qed

lemma try_nameservers_preserves:
  assumes "keeps_entries rec"
  shows "try_nameservers rec udp w key tgt qtype nss = Some (out, w') \<Longrightarrow> k \<noteq> key \<Longrightarrow>
         cache w k = Some v \<Longrightarrow> cache w' k = Some v"
proof (induction nss arbitrary: w)
  case Nil
  then show ?case by simp
next
  case (Cons ns rest)
  show ?case
  proof (cases "attempt rec udp w key tgt qtype ns")
    case None
    then show ?thesis using Cons.prems by simp
  next
    case (Some p)
    obtain o1 w1 where p: "p = (o1, w1)" by (cases p)
    have w1: "cache w1 k = Some v"
      using attempt_preserves [OF assms _ Cons.prems(2,3)] Some p by blast
    show ?thesis
      using Cons.prems(1) Some p w1 Cons.IH [OF _ Cons.prems(2) w1]
      by (cases o1) auto
  qed
qed

lemma resolve_loop_preserves:
  assumes "keeps_entries rec"
  shows "resolve_loop fuel rec udp w key tgt qtype nss oq = Some (res, w') \<Longrightarrow> k \<noteq> key \<Longrightarrow>
         cache w k = Some v \<Longrightarrow> cache w' k = Some v"
proof (induction fuel arbitrary: w tgt nss oq)
  case 0
  then show ?case by simp
next
  case (Suc fuel)
  show ?case
  proof (cases "try_nameservers rec udp w key tgt qtype nss")
    case None
    then show ?thesis using Suc.prems by simp
  next
    case (Some p)
    obtain o1 w1 where p: "p = (o1, w1)" by (cases p)
    have w1: "cache w1 k = Some v"
      using try_nameservers_preserves [OF assms _ Suc.prems(2,3)] Some p by blast
    show ?thesis
    proof (cases o1)
      case (Return r)
      then show ?thesis using Suc.prems(1) Some p w1 by simp
    next
      case (Break t nss')
      then show ?thesis
        using Suc.prems(1) Some p Suc.IH [OF _ Suc.prems(2) w1] by (simp add: Let_def)
    next
      case Next
      then show ?thesis
        using Suc.prems(1,2) Some p w1
        by (auto simp: Let_def put_def split: option.splits if_splits)
    qed
  qed
qed

lemma lookup_preserves:
  "lookup fuel udp w target_name qtype = Some (res, w') \<Longrightarrow> cache w k = Some v \<Longrightarrow>
   cache w' k = Some v"
proof (induction fuel arbitrary: w target_name qtype res w' k v)
  case 0
  then show ?case by simp
next
  case (Suc fuel)
  show ?case
  proof (cases "cache w (target_name, qtype)")
    case (Some cached)
    then show ?thesis using Suc.prems by simp
  next
    case None
    then have ne: "k \<noteq> (target_name, qtype)"
      using Suc.prems(2) by auto
    have k: "keeps_entries (lookup fuel udp)"
      unfolding keeps_entries_def using Suc.IH by blast
    have "resolve_loop fuel (lookup fuel udp) udp w (target_name, qtype) target_name qtype
        (initial_nameservers (cache w) target_name) None = Some (res, w')"
      using Suc.prems(1) None by simp
    then show ?thesis
      using resolve_loop_preserves [OF k _ ne Suc.prems(2)]
      by blast
  qed
qed

text \<open>
  C1. First-writer-wins does not hold for the key of the running lookup. In the lookup
  of the A record of \<open>ns1.example.com.\<close> the first cycle stores the glue of the referral
  under the key \<open>(ns1.example.com., A)\<close> (lines 213-217), and the second cycle stores
  the answer of the nameserver under the same key with the unconditional assignment of
  line 188: the entry with the address 10.0.0.1 is replaced by the one with 10.0.0.9.
  The entry that is replaced was written during the lookup itself.
\<close>

theorem lookup_overwrites_own_key:
  "map_option (\<lambda>(out, w'). (out, cache w' (ns1_name, A)))
     (try_nameservers (lookup (Suc (Suc 0)) ns1_net) ns1_net empty_world (ns1_name, A) ns1_name A
        ROOT_SERVERS)
     = Some (Break ns1_name [''10.0.0.1''], Some ns1_glue_entry)
   \<and> map_option (\<lambda>(r, w'). (r, cache w' (ns1_name, A)))
       (lookup (Suc (Suc (Suc 0))) ns1_net empty_world ns1_name A)
     = Some (Inr ns1_answer, Some ns1_answer)
   \<and> ns1_glue_entry \<noteq> ns1_answer"
  by (simp add: attempt_defs scenario_defs ns1_net_def ns1_referral_def ns1_name_def
      ns1_glue_entry_def ns1_answer_def)

section \<open>Classification of a response\<close>

text \<open>
  A reply whose answer and authority sections are both empty is not terminal. The first
  root server sends such a reply for \<open>www.example.com.\<close>; the attempt ends without a
  return and without a cache entry, the second root server is asked, and the lookup
  returns the answer of the second server.
\<close>

theorem empty_authority_not_terminal:
  "answer bare_reply = [] \<and> authority bare_reply = []
   \<and> bare_net () (make_query host_name A) ''198.41.0.4'' = (Inr bare_reply, ())
   \<and> attempt no_lookup bare_net empty_world (host_name, A) host_name A ''198.41.0.4''
       = Some (Next, empty_world)
   \<and> lookup (Suc (Suc 0)) bare_net empty_world host_name A
       = Some (Inr host_answer, \<lparr>cache = [(host_name, A) \<mapsto> host_answer], net = ()\<rparr>)
   \<and> host_answer \<noteq> bare_reply"
  by (simp add: attempt_defs scenario_defs bare_net_def bare_reply_def host_answer_def
      host_name_def)

text \<open>
  C2, amended. For every query attempt whose response has no answer records and a
  non-empty authority section without NS records, the response is stored under the key of
  the lookup and returned as it is, by the attempt and by the loop of the lookup. A
  response whose answer and authority sections are both empty is not terminal: the
  attempt stores nothing and the loop goes on with the next nameserver.
\<close>

theorem terminal_without_ns:
  assumes "udp (net w) (make_query current_target qtype) ns = (Inr response, n')"
    and "answer response = []"
  shows "(authority response \<noteq> [] \<and> ns_targets (authority response) = [] \<longrightarrow>
            attempt rec udp w cache_key current_target qtype ns
              = Some (Return response, w\<lparr>net := n', cache := (cache w)(cache_key \<mapsto> response)\<rparr>)
          \<and> resolve_loop (Suc fuel) rec udp w cache_key current_target qtype (ns # rest)
                outbound_query
              = Some (Inr response, w\<lparr>net := n', cache := (cache w)(cache_key \<mapsto> response)\<rparr>))
       \<and> (authority response = [] \<longrightarrow>
            attempt rec udp w cache_key current_target qtype ns = Some (Next, w\<lparr>net := n'\<rparr>)
          \<and> try_nameservers rec udp w cache_key current_target qtype (ns # rest)
              = try_nameservers rec udp (w\<lparr>net := n'\<rparr>) cache_key current_target qtype rest)"
proof (intro conjI impI)
  assume a: "authority response \<noteq> [] \<and> ns_targets (authority response) = []"
  show r: "attempt rec udp w cache_key current_target qtype ns
      = Some (Return response, w\<lparr>net := n', cache := (cache w)(cache_key \<mapsto> response)\<rparr>)"
    using assms a by (simp add: attempt_no_ns put_def)
  show "resolve_loop (Suc fuel) rec udp w cache_key current_target qtype (ns # rest)
      outbound_query = Some (Inr response, w\<lparr>net := n', cache := (cache w)(cache_key \<mapsto> response)\<rparr>)"
    using r by simp
next
  assume a: "authority response = []"
  show n: "attempt rec udp w cache_key current_target qtype ns = Some (Next, w\<lparr>net := n'\<rparr>)"
    using assms a by (simp add: attempt_no_sections)
  show "try_nameservers rec udp w cache_key current_target qtype (ns # rest)
      = try_nameservers rec udp (w\<lparr>net := n'\<rparr>) cache_key current_target qtype rest"
    using n by simp
qed

theorem terminal_without_ns_witness:
  "attempt no_lookup nodata_net empty_world (host_name, AAAA) host_name AAAA ''198.41.0.4''
     = Some (Return nodata_reply, \<lparr>cache = [(host_name, AAAA) \<mapsto> nodata_reply], net = ()\<rparr>)
   \<and> resolve_loop (Suc 0) no_lookup nodata_net empty_world (host_name, AAAA) host_name AAAA
       (''198.41.0.4'' # tl ROOT_SERVERS) None
     = Some (Inr nodata_reply, \<lparr>cache = [(host_name, AAAA) \<mapsto> nodata_reply], net = ()\<rparr>)
   \<and> attempt no_lookup bare_net empty_world (host_name, A) host_name A ''198.41.0.4''
     = Some (Next, empty_world)
   \<and> try_nameservers no_lookup bare_net empty_world (host_name, A) host_name A
       (''198.41.0.4'' # tl ROOT_SERVERS)
     = try_nameservers no_lookup bare_net empty_world (host_name, A) host_name A
         (tl ROOT_SERVERS)
   \<and> ns_targets (authority nodata_reply) = []
   \<and> ns_targets (authority com_referral) = [tld_ns_name]
   \<and> attempt no_lookup glue_net empty_world (host_name, A) host_name A ''198.41.0.4''
     = Some (Break host_name [''192.5.6.30''], glue_world)"
proof -
  have c: "ns_targets (authority com_referral) = [tld_ns_name]"
    by (simp add: com_referral_def)
  have g: "attempt no_lookup glue_net empty_world (host_name, A) host_name A ''198.41.0.4''
     = Some (Break host_name [''192.5.6.30''], glue_world)"
    by (simp add: attempt_defs scenario_defs glue_net_def glue_world_def com_referral_def
        host_name_def com_name_def tld_ns_name_def)
  have u1: "nodata_net (net empty_world) (make_query host_name AAAA) ''198.41.0.4''
      = (Inr nodata_reply, ())"
    by (simp add: nodata_net_def static_net_def make_query_def)
  have s1: "answer nodata_reply = []" "authority nodata_reply \<noteq> []"
    "ns_targets (authority nodata_reply) = []"
    by (simp_all add: nodata_reply_def)
  have u2: "bare_net (net empty_world) (make_query host_name A) ''198.41.0.4''
      = (Inr bare_reply, ())"
    by (simp add: bare_net_def static_net_def make_query_def)
  have s2: "answer bare_reply = []" "authority bare_reply = []"
    by (simp_all add: bare_reply_def)
  have e: "empty_world\<lparr>net := ()\<rparr> = empty_world"
    by (simp add: empty_world_def)
  show ?thesis
    using terminal_without_ns [where udp = nodata_net and w = empty_world
        and current_target = host_name and qtype = AAAA and ns = "''198.41.0.4''"
        and response = nodata_reply and rec = no_lookup and cache_key = "(host_name, AAAA)"
        and fuel = 0 and rest = "tl ROOT_SERVERS" and outbound_query = None, OF u1 s1(1)]
      terminal_without_ns [where udp = bare_net and w = empty_world
        and current_target = host_name and qtype = A and ns = "''198.41.0.4''"
        and response = bare_reply and rec = no_lookup and cache_key = "(host_name, A)"
        and fuel = 0 and rest = "tl ROOT_SERVERS" and outbound_query = None, OF u2 s2(1)]
      s1 s2 e c g
    by (simp add: empty_world_def)
qed

text \<open>
  C3. When every nameserver of the current set fails in the transport, with a timeout or
  with any other error, each in the state of the network in which it is queried, the
  cycle of the loop returns: the result is the empty response synthesized for the last
  query, without records in any section, and the world after the cycle differs from the
  one before it by the state of the network and by this response stored in the cache
  under the key of the lookup. The same holds for every cycle in which the loop over the
  nameservers ends without a break and without a return.
\<close>

theorem exhaustion_fallback:
  assumes "nameservers \<noteq> []"
  shows "(\<forall>n'. transport_failures udp (net w) (make_query current_target qtype) nameservers
                 = Some n' \<longrightarrow>
            resolve_loop (Suc fuel) rec udp w cache_key current_target qtype nameservers
              outbound_query
            = Some (Inr (make_response (make_query current_target qtype)),
                    w\<lparr>net := n',
                      cache := (cache w)(cache_key \<mapsto>
                                  make_response (make_query current_target qtype))\<rparr>))
       \<and> (\<forall>w'. try_nameservers rec udp w cache_key current_target qtype nameservers
                 = Some (Next, w') \<longrightarrow>
            resolve_loop (Suc fuel) rec udp w cache_key current_target qtype nameservers
              outbound_query
            = Some (Inr (make_response (make_query current_target qtype)),
                    w'\<lparr>cache := (cache w')(cache_key \<mapsto>
                                   make_response (make_query current_target qtype))\<rparr>))
       \<and> make_response (make_query current_target qtype)
           = \<lparr>question = [(current_target, qtype)], answer = [], authority = [],
              additional = []\<rparr>"
proof (intro conjI allI impI)
  fix w'
  assume "try_nameservers rec udp w cache_key current_target qtype nameservers
      = Some (Next, w')"
  then show "resolve_loop (Suc fuel) rec udp w cache_key current_target qtype nameservers
        outbound_query
      = Some (Inr (make_response (make_query current_target qtype)),
              w'\<lparr>cache := (cache w')(cache_key \<mapsto>
                             make_response (make_query current_target qtype))\<rparr>)"
    using assms by (simp add: put_def Let_def)
next
  fix n'
  assume "transport_failures udp (net w) (make_query current_target qtype) nameservers
      = Some n'"
  then have "try_nameservers rec udp w cache_key current_target qtype nameservers
      = Some (Next, w\<lparr>net := n'\<rparr>)"
    by (rule try_nameservers_transport_failures)
  then show "resolve_loop (Suc fuel) rec udp w cache_key current_target qtype nameservers
        outbound_query
      = Some (Inr (make_response (make_query current_target qtype)),
              w\<lparr>net := n',
                cache := (cache w)(cache_key \<mapsto>
                            make_response (make_query current_target qtype))\<rparr>)"
    using assms by (simp add: put_def Let_def)
next
  show "make_response (make_query current_target qtype)
      = \<lparr>question = [(current_target, qtype)], answer = [], authority = [],
         additional = []\<rparr>"
    by (simp add: make_response_def make_query_def)
qed

theorem exhaustion_fallback_witness:
  "transport_failures flaky_net 13 (make_query host_name MX) ROOT_SERVERS = Some 0
   \<and> fst (flaky_net 0 (make_query host_name MX) ''198.41.0.4'') = Inr host_answer
   \<and> resolve_loop (Suc 0) (\<lambda>w target_name qtype. None) flaky_net
       \<lparr>cache = Map.empty, net = 13\<rparr> (host_name, MX) host_name MX ROOT_SERVERS None
     = Some (Inr \<lparr>question = [(host_name, MX)], answer = [], authority = [],
                   additional = []\<rparr>,
             \<lparr>cache = [(host_name, MX) \<mapsto>
                         \<lparr>question = [(host_name, MX)], answer = [], authority = [],
                            additional = []\<rparr>],
                net = 0\<rparr>)
   \<and> lookup (Suc (Suc 0)) dead_net empty_world host_name MX
     = Some (Inr \<lparr>question = [(host_name, MX)], answer = [], authority = [],
                   additional = []\<rparr>,
             \<lparr>cache = [(host_name, MX) \<mapsto>
                         \<lparr>question = [(host_name, MX)], answer = [], authority = [],
                            additional = []\<rparr>],
                net = ()\<rparr>)"
proof -
  have h1: "ROOT_SERVERS \<noteq> []"
    by (simp add: ROOT_SERVERS_def)
  have h2: "transport_failures flaky_net (net \<lparr>cache = Map.empty, net = 13\<rparr>)
      (make_query host_name MX) ROOT_SERVERS = Some 0"
    by (simp add: flaky_net_def ROOT_SERVERS_def)
  have h3: "fst (flaky_net 0 (make_query host_name MX) ''198.41.0.4'') = Inr host_answer"
    by (simp add: flaky_net_def)
  have l: "lookup (Suc (Suc 0)) dead_net empty_world host_name MX
     = Some (Inr \<lparr>question = [(host_name, MX)], answer = [], authority = [],
                   additional = []\<rparr>,
             \<lparr>cache = [(host_name, MX) \<mapsto>
                         \<lparr>question = [(host_name, MX)], answer = [], authority = [],
                            additional = []\<rparr>],
                net = ()\<rparr>)"
    by (simp add: attempt_defs scenario_defs dead_net_def host_name_def)
  note t = exhaustion_fallback [where udp = flaky_net and nameservers = ROOT_SERVERS
      and current_target = host_name and qtype = MX and rec = "\<lambda>w target_name qtype. None"
      and w = "\<lparr>cache = Map.empty, net = 13\<rparr>" and cache_key = "(host_name, MX)"
      and fuel = 0 and outbound_query = None, OF h1]
  have r: "resolve_loop (Suc 0) (\<lambda>w target_name qtype. None) flaky_net
       \<lparr>cache = Map.empty, net = 13\<rparr> (host_name, MX) host_name MX ROOT_SERVERS None
     = Some (Inr (make_response (make_query host_name MX)),
             \<lparr>cache = Map.empty, net = 13\<rparr>\<lparr>net := 0,
               cache := (cache \<lparr>cache = Map.empty, net = 13::nat\<rparr>)((host_name, MX) \<mapsto>
                           make_response (make_query host_name MX))\<rparr>)"
    using t h2 by blast
  have m: "make_response (make_query host_name MX)
      = \<lparr>question = [(host_name, MX)], answer = [], authority = [], additional = []\<rparr>"
    using t by blast
  show ?thesis
    using h2 h3 l r unfolding m by simp
qed

text \<open>
  C6. For a query of type CNAME, a response with a non-empty answer section ends the
  lookup at once: when an answer set is of type CNAME the response itself is stored
  under the key of the lookup and returned, otherwise an empty response synthesized for
  the query is stored and returned. The attempt never breaks to another target, and the
  loop of the lookup returns the same response.
\<close>

theorem cname_query_terminal:
  assumes "udp (net w) (make_query current_target CNAME) ns = (Inr response, n')"
    and "answer response \<noteq> []"
  shows "let r = (if CNAME \<in> rdtype ` set (answer response) then response
                  else make_response (make_query current_target CNAME))
         in attempt rec udp w cache_key current_target CNAME ns
              = Some (Return r, w\<lparr>net := n', cache := (cache w)(cache_key \<mapsto> r)\<rparr>)
          \<and> resolve_loop (Suc fuel) rec udp w cache_key current_target CNAME (ns # rest)
                outbound_query
              = Some (Inr r, w\<lparr>net := n', cache := (cache w)(cache_key \<mapsto> r)\<rparr>)"
proof -
  have f: "(find (\<lambda>rs. rdtype rs = CNAME) (answer response) = None)
      = (CNAME \<notin> rdtype ` set (answer response))"
    by (auto simp: find_None_iff image_iff)
  have a: "attempt rec udp w cache_key current_target CNAME ns
      = Some (Return (if CNAME \<in> rdtype ` set (answer response) then response
                      else make_response (make_query current_target CNAME)),
              w\<lparr>net := n',
                cache := (cache w)(cache_key \<mapsto>
                    (if CNAME \<in> rdtype ` set (answer response) then response
                     else make_response (make_query current_target CNAME)))\<rparr>)"
    using assms f
    by (cases "find (\<lambda>rs. rdtype rs = CNAME) (answer response)")
       (auto simp: attempt_def attempt_body_def answered_def put_def Let_def)
  show ?thesis
    unfolding Let_def using a by simp
qed

theorem cname_query_terminal_witness:
  "attempt no_lookup cname_net empty_world (host_name, CNAME) host_name CNAME ''198.41.0.4''
     = Some (Return host_cname_reply, \<lparr>cache = [(host_name, CNAME) \<mapsto> host_cname_reply], net = ()\<rparr>)
   \<and> attempt no_lookup cname_net empty_world (apex_name, CNAME) apex_name CNAME ''198.41.0.4''
     = Some (Return \<lparr>question = [(apex_name, CNAME)], answer = [], authority = [],
                      additional = []\<rparr>,
             \<lparr>cache = [(apex_name, CNAME) \<mapsto>
                 \<lparr>question = [(apex_name, CNAME)], answer = [], authority = [],
                    additional = []\<rparr>],
               net = ()\<rparr>)"
proof -
  have u1: "cname_net (net empty_world) (make_query host_name CNAME) ''198.41.0.4''
      = (Inr host_cname_reply, ())"
    by (simp add: cname_net_def static_net_def make_query_def)
  have s1: "answer host_cname_reply \<noteq> []" "CNAME \<in> rdtype ` set (answer host_cname_reply)"
    by (simp_all add: host_cname_reply_def rdtype_def)
  have u2: "cname_net (net empty_world) (make_query apex_name CNAME) ''198.41.0.4''
      = (Inr apex_cname_reply, ())"
    by (simp add: cname_net_def static_net_def make_query_def apex_name_def host_name_def)
  have s2: "answer apex_cname_reply \<noteq> []" "CNAME \<notin> rdtype ` set (answer apex_cname_reply)"
    by (simp_all add: apex_cname_reply_def rdtype_def)
  have e: "empty_world\<lparr>net := ()\<rparr> = empty_world"
    by (simp add: empty_world_def)
  show ?thesis
    using cname_query_terminal [where udp = cname_net and w = empty_world
        and current_target = host_name and ns = "''198.41.0.4''"
        and response = host_cname_reply and rec = no_lookup
        and cache_key = "(host_name, CNAME)" and fuel = 0 and rest = "[]"
        and outbound_query = None, OF u1 s1(1)]
      cname_query_terminal [where udp = cname_net and w = empty_world
        and current_target = apex_name and ns = "''198.41.0.4''"
        and response = apex_cname_reply and rec = no_lookup
        and cache_key = "(apex_name, CNAME)" and fuel = 0 and rest = "[]"
        and outbound_query = None, OF u2 s2(1)]
      s1(2) s2(2) e
    by (simp add: Let_def make_query_def make_response_def empty_world_def)
qed

text \<open>
  C4. For a query type other than CNAME, when the first answer set of type CNAME of a
  response carries a record, the attempt breaks with the target of that record as the
  new target and the Root Hints as the new nameserver set, the cache is left as it is,
  and the loop goes on with this target and set under the same key. Whatever the loop
  returns afterwards is stored under that key, the one of the original name, and an
  attempt that returns a response for the alias target writes to this key only.
\<close>

theorem implicit_alias_restart:
  assumes "qtype \<noteq> CNAME"
    and "udp (net w) (make_query current_target qtype) ns = (Inr response, n')"
    and "find (\<lambda>rs. rdtype rs = CNAME) (answer response) = Some rs"
    and "rdata rs = CNAME_records (alias_target # others)"
  shows "attempt rec udp w cache_key current_target qtype ns
           = Some (Break alias_target ROOT_SERVERS, w\<lparr>net := n'\<rparr>)
       \<and> resolve_loop (Suc fuel) rec udp w cache_key current_target qtype (ns # rest)
             outbound_query
           = resolve_loop fuel rec udp (w\<lparr>net := n'\<rparr>) cache_key alias_target qtype
               ROOT_SERVERS (Some (make_query current_target qtype))
       \<and> (\<forall>r w'. resolve_loop fuel rec udp (w\<lparr>net := n'\<rparr>) cache_key alias_target qtype
                    ROOT_SERVERS (Some (make_query current_target qtype)) = Some (Inr r, w')
             \<longrightarrow> cache w' cache_key = Some r)
       \<and> (\<forall>ns2 wa r wb. attempt rec udp wa cache_key alias_target qtype ns2
                          = Some (Return r, wb)
             \<longrightarrow> cache wb = (cache wa)(cache_key \<mapsto> r))"
proof -
  have ne: "answer response \<noteq> []"
    using assms(3) by auto
  have a: "attempt rec udp w cache_key current_target qtype ns
      = Some (Break alias_target ROOT_SERVERS, w\<lparr>net := n'\<rparr>)"
    using assms ne by (simp add: attempt_def attempt_body_def answered_def)
  have l: "resolve_loop (Suc fuel) rec udp w cache_key current_target qtype (ns # rest)
        outbound_query
      = resolve_loop fuel rec udp (w\<lparr>net := n'\<rparr>) cache_key alias_target qtype
          ROOT_SERVERS (Some (make_query current_target qtype))"
    using a by simp
  show ?thesis
    using a l by (auto dest: resolve_loop_result_cached attempt_Return_cache)
qed

theorem implicit_alias_restart_witness:
  "attempt no_lookup alias_net empty_world (host_name, A) host_name A ''198.41.0.4''
     = Some (Break apex_name ROOT_SERVERS, empty_world)
   \<and> lookup (Suc (Suc (Suc 0))) alias_net empty_world host_name A
     = Some (Inr apex_answer, put (host_name, A) apex_answer empty_world)
   \<and> cache (put (host_name, A) apex_answer empty_world) (host_name, A) = Some apex_answer
   \<and> cache (put (host_name, A) apex_answer empty_world) (apex_name, A) = None"
proof -
  have h1: "A \<noteq> CNAME"
    by simp
  have h2: "alias_net (net empty_world) (make_query host_name A) ''198.41.0.4''
      = (Inr host_alias_reply, ())"
    by (simp add: alias_net_def static_net_def make_query_def)
  have h3: "find (\<lambda>rs. rdtype rs = CNAME) (answer host_alias_reply)
      = Some \<lparr>name = host_name, rdata = CNAME_records [apex_name]\<rparr>"
    by (simp add: host_alias_reply_def rdtype_def)
  have h4: "rdata \<lparr>name = host_name, rdata = CNAME_records [apex_name]\<rparr>
      = CNAME_records (apex_name # [])"
    by simp
  have e: "empty_world\<lparr>net := ()\<rparr> = empty_world"
    by (simp add: empty_world_def)
  have l: "lookup (Suc (Suc (Suc 0))) alias_net empty_world host_name A
     = Some (Inr apex_answer, put (host_name, A) apex_answer empty_world)"
    by (simp add: attempt_defs scenario_defs alias_net_def host_alias_reply_def
        apex_answer_def host_name_def apex_name_def)
  have r: "resolve_loop (Suc 0) no_lookup alias_net empty_world (host_name, A) apex_name A
        ROOT_SERVERS (Some (make_query host_name A))
     = Some (Inr apex_answer, put (host_name, A) apex_answer empty_world)"
    by (simp add: attempt_defs scenario_defs alias_net_def host_alias_reply_def
        apex_answer_def host_name_def apex_name_def)
  have n: "cache (put (host_name, A) apex_answer empty_world) (apex_name, A) = None"
    by (simp add: put_def empty_world_def host_name_def apex_name_def)
  show ?thesis
    using implicit_alias_restart [where udp = alias_net and w = empty_world
        and current_target = host_name and qtype = A and ns = "''198.41.0.4''"
        and response = host_alias_reply and rec = no_lookup
        and cache_key = "(host_name, A)" and fuel = "Suc 0" and rest = "[]"
        and outbound_query = None, OF h1 h2 h3 h4] e l r n
    by simp
qed

section \<open>Referrals\<close>

lemma collect_glue_addresses:
  "collect_glue q xs w acc = (Inr glue, w') \<Longrightarrow>
   glue = acc @ concat (map (\<lambda>rs. case rdata rs of A_records (a # _) \<Rightarrow> [a] | _ \<Rightarrow> []) xs)"
proof (induction xs arbitrary: w acc)
  case Nil
  then show ?case by simp
next
  case (Cons x xs)
  note prems = Cons.prems and IH = Cons.IH
  show ?case
  proof (cases "rdata x")
    case (A_records addrs)
    show ?thesis
    proof (cases addrs)
      case Nil
      then show ?thesis using prems A_records by simp
    next
      case (Cons a more_addrs)
      then show ?thesis using prems A_records IH by fastforce
    qed
  qed (use prems IH in simp_all)
qed

text \<open>Targets that yield no address are passed over.\<close>

lemma glueless_prefix:
  "glueless rec w before [] = Some ([], wa) \<Longrightarrow>
   glueless rec w (before @ xs) [] = glueless rec wa xs []"
proof (induction before arbitrary: w)
  case Nil
  then show ?case by simp
next
  case (Cons n before)
  then show ?case
    by (auto simp: Let_def split: option.splits prod.splits sum.splits if_splits)
qed

lemma attempt_referral:
  "udp (net w) (make_query tgt qtype) ns = (Inr response, n') \<Longrightarrow>
   answer response = [] \<Longrightarrow> authority response \<noteq> [] \<Longrightarrow>
   attempt rec udp w key tgt qtype ns =
     (case referral rec (w\<lparr>net := n'\<rparr>) key tgt (make_query tgt qtype) response of
        None \<Rightarrow> None
      | Some (Inl e, w') \<Rightarrow> Some (Next, w')
      | Some (Inr out, w') \<Rightarrow> Some (out, w'))"
  by (simp add: attempt_def attempt_body_def)

text \<open>
  The addresses taken from the additional section are not the glue addresses of the
  referral. The referral names the nameserver \<open>ns1.example.com.\<close>; its additional
  section holds the addresses 203.0.113.6 and 203.0.113.7 of another name and none of
  the nameserver. The attempt breaks with the first of the two addresses as the whole
  next nameserver set: the second address is dropped, and although there is no address
  of the nameserver, no nested lookup is issued, since with a nested lookup that never
  returns the attempt returns all the same.
\<close>

theorem glue_first_address_of_any_owner:
  "answer stray_referral = []
   \<and> ns_targets (authority stray_referral) = [ns1_name]
   \<and> map name (additional stray_referral) = [stray_name]
   \<and> stray_name \<noteq> ns1_name
   \<and> a_addresses (additional stray_referral) = [''203.0.113.6'', ''203.0.113.7'']
   \<and> attempt no_lookup stray_net empty_world (host_name, A) host_name A ''198.41.0.4''
     = Some (Break host_name [''203.0.113.6''],
             \<lparr>cache =
                [(apex_name, NS) \<mapsto>
                   \<lparr>question = [(host_name, A)], answer = authority stray_referral,
                      authority = [], additional = []\<rparr>,
                 (stray_name, A) \<mapsto>
                   \<lparr>question = [(host_name, A)], answer = additional stray_referral,
                      authority = [], additional = []\<rparr>],
              net = ()\<rparr>)"
  by (simp add: attempt_defs scenario_defs stray_net_def stray_referral_def stray_name_def
      ns1_name_def host_name_def apex_name_def)

text \<open>
  C5, amended. For a referral, a response without answer whose authority section names NS
  targets: the addresses taken from the additional section are the first address of
  every A set of that section, whatever the owner of the set. When there is at least
  one, the attempt breaks with exactly these addresses as the next nameserver set, and
  it does so even when a nested lookup would never return: none is issued. Only when
  there is none, the nested lookups decide: the attempt breaks with their addresses, or
  goes on to the next nameserver when they yield none. The nested lookups stop at the
  first NS target that yields an address: the targets before it yielded none, its
  addresses are the result, and the targets after it are not looked up.
\<close>

theorem referral_glue_preference:
  assumes "udp (net w) (make_query current_target qtype) ns = (Inr response, n')"
    and "answer response = []"
    and "authority response = first # others"
    and "ns_targets (authority response) \<noteq> []"
    and "collect_glue (make_query current_target qtype) (additional response)
           (put_if_absent (name first, NS)
              ((make_response (make_query current_target qtype))
                 \<lparr>answer := authority response\<rparr>) (w\<lparr>net := n'\<rparr>)) []
         = (Inr glue, w3)"
  shows "glue = concat (map (\<lambda>rs. case rdata rs of A_records (a # _) \<Rightarrow> [a] | _ \<Rightarrow> [])
                          (additional response))
       \<and> (glue \<noteq> [] \<longrightarrow>
            attempt rec udp w cache_key current_target qtype ns
              = Some (Break current_target glue, w3)
          \<and> attempt (\<lambda>w target_name qtype. None) udp w cache_key current_target qtype ns
              = Some (Break current_target glue, w3))
       \<and> (glue = [] \<longrightarrow>
            attempt rec udp w cache_key current_target qtype ns
              = (case glueless rec w3 (ns_targets (authority response)) [] of
                   None \<Rightarrow> None
                 | Some (new_nameservers, w4) \<Rightarrow>
                     Some (if new_nameservers \<noteq> [] then Break current_target new_nameservers
                           else Next, w4)))
       \<and> (\<forall>before ns_name after wa wb m.
            glueless rec w3 before [] = Some ([], wa)
            \<and> rec wa ns_name A = Some (Inr m, wb) \<and> a_addresses (answer m) \<noteq> []
            \<longrightarrow> glueless rec w3 (before @ ns_name # after) []
                  = Some (a_addresses (answer m), wb))"
proof (intro conjI impI allI)
  show "glue = concat (map (\<lambda>rs. case rdata rs of A_records (a # _) \<Rightarrow> [a] | _ \<Rightarrow> [])
                          (additional response))"
    using collect_glue_addresses [OF assms(5)] by simp
next
  fix lk :: "'a lookup_fn"
  have r: "glue \<noteq> [] \<Longrightarrow> attempt lk udp w cache_key current_target qtype ns
      = Some (Break current_target glue, w3)" for lk :: "'a lookup_fn"
    using assms by (simp add: attempt_referral referral_def Let_def)
  assume "glue \<noteq> []"
  then show "attempt rec udp w cache_key current_target qtype ns
      = Some (Break current_target glue, w3)"
    and "attempt (\<lambda>w target_name qtype. None) udp w cache_key current_target qtype ns
      = Some (Break current_target glue, w3)"
    using r by simp_all
next
  assume "glue = []"
  then show "attempt rec udp w cache_key current_target qtype ns
      = (case glueless rec w3 (ns_targets (authority response)) [] of
           None \<Rightarrow> None
         | Some (new_nameservers, w4) \<Rightarrow>
             Some (if new_nameservers \<noteq> [] then Break current_target new_nameservers
                   else Next, w4))"
    using assms
    by (simp add: attempt_referral referral_def Let_def split: option.splits prod.splits)
next
  fix before ns_name after wa wb m
  assume h: "glueless rec w3 before [] = Some ([], wa)
      \<and> rec wa ns_name A = Some (Inr m, wb) \<and> a_addresses (answer m) \<noteq> []"
  then have "glueless rec w3 (before @ ns_name # after) []
      = glueless rec wa (ns_name # after) []"
    by (simp add: glueless_prefix)
  then show "glueless rec w3 (before @ ns_name # after) []
      = Some (a_addresses (answer m), wb)"
    using h by (simp add: Let_def)
qed

theorem referral_glue_preference_witness:
  "attempt no_lookup glue_net empty_world (host_name, A) host_name A ''198.41.0.4''
     = Some (Break host_name [''192.5.6.30''], glue_world)
   \<and> glueless (lookup (Suc (Suc 0)) glueless_net) referral_world
       [lost_ns_name, good_ns_name] []
     = Some ([''10.0.0.53''], good_world)
   \<and> attempt (lookup (Suc (Suc 0)) glueless_net) glueless_net empty_world (host_name, A)
       host_name A ''198.41.0.4''
     = Some (Break host_name [''10.0.0.53''], good_world)"
proof -
  have e: "empty_world\<lparr>net := ()\<rparr> = empty_world"
    by (simp add: empty_world_def)
  have g1: "glue_net (net empty_world) (make_query host_name A) ''198.41.0.4''
      = (Inr com_referral, ())"
    by (simp add: glue_net_def static_net_def make_query_def)
  have g2: "answer com_referral = []"
    by (simp add: com_referral_def)
  have g3: "authority com_referral = \<lparr>name = com_name, rdata = NS_records [tld_ns_name]\<rparr> # []"
    by (simp add: com_referral_def)
  have g4: "ns_targets (authority com_referral) \<noteq> []"
    by (simp add: com_referral_def)
  have g5: "collect_glue (make_query host_name A) (additional com_referral)
       (put_if_absent (name \<lparr>name = com_name, rdata = NS_records [tld_ns_name]\<rparr>, NS)
          ((make_response (make_query host_name A))\<lparr>answer := authority com_referral\<rparr>)
          (empty_world\<lparr>net := ()\<rparr>)) []
      = (Inr [''192.5.6.30''], glue_world)"
    by (simp add: glue_world_def com_referral_def empty_world_def put_if_absent_def put_def
        make_query_def make_response_def com_name_def tld_ns_name_def)
  have b1: "glueless_net (net empty_world) (make_query host_name A) ''198.41.0.4''
      = (Inr bare_referral, ())"
    by (simp add: glueless_net_def static_net_def make_query_def)
  have b2: "answer bare_referral = []"
    by (simp add: bare_referral_def)
  have b3: "authority bare_referral
      = \<lparr>name = apex_name, rdata = NS_records [lost_ns_name, good_ns_name]\<rparr> # []"
    by (simp add: bare_referral_def)
  have b4: "ns_targets (authority bare_referral) = [lost_ns_name, good_ns_name]"
    by (simp add: bare_referral_def)
  have b5: "collect_glue (make_query host_name A) (additional bare_referral)
       (put_if_absent
          (name \<lparr>name = apex_name, rdata = NS_records [lost_ns_name, good_ns_name]\<rparr>, NS)
          ((make_response (make_query host_name A))\<lparr>answer := authority bare_referral\<rparr>)
          (empty_world\<lparr>net := ()\<rparr>)) []
      = (Inr [], referral_world)"
    by (simp add: referral_world_def bare_referral_def empty_world_def put_if_absent_def
        put_def make_query_def make_response_def)
  have n1: "glueless (lookup (Suc (Suc 0)) glueless_net) referral_world [lost_ns_name] []
      = Some ([], lost_world)"
    by (simp add: attempt_defs scenario_defs glueless_net_def referral_world_def
        lost_world_def bare_referral_def lost_ns_reply_def lost_ns_name_def good_ns_name_def
        host_name_def apex_name_def)
  have n2: "lookup (Suc (Suc 0)) glueless_net lost_world good_ns_name A
      = Some (Inr good_ns_answer, good_world)"
    by (simp add: attempt_defs scenario_defs glueless_net_def referral_world_def
        lost_world_def good_world_def bare_referral_def lost_ns_reply_def good_ns_answer_def
        lost_ns_name_def good_ns_name_def host_name_def apex_name_def)
  have n3: "a_addresses (answer good_ns_answer) = [''10.0.0.53'']"
    by (simp add: good_ns_answer_def)
  have b4': "ns_targets (authority bare_referral) \<noteq> []"
    using b4 by simp
  note t1 = referral_glue_preference [where udp = glue_net and w = empty_world
        and current_target = host_name and qtype = A and ns = "''198.41.0.4''"
        and response = com_referral and rec = no_lookup and cache_key = "(host_name, A)"
        and glue = "[''192.5.6.30'']" and ?w3.0 = glue_world, OF g1 g2 g3 g4 g5]
  note t2 = referral_glue_preference [where udp = glueless_net and w = empty_world
        and current_target = host_name and qtype = A and ns = "''198.41.0.4''"
        and response = bare_referral and rec = "lookup (Suc (Suc 0)) glueless_net"
        and cache_key = "(host_name, A)" and glue = "[]" and ?w3.0 = referral_world,
        OF b1 b2 b3 b4' b5]
  have c1: "attempt no_lookup glue_net empty_world (host_name, A) host_name A ''198.41.0.4''
     = Some (Break host_name [''192.5.6.30''], glue_world)"
    using t1 by simp
  have q: "glueless (lookup (Suc (Suc 0)) glueless_net) referral_world before [] = Some ([], wa)
      \<Longrightarrow> lookup (Suc (Suc 0)) glueless_net wa ns_name A = Some (Inr m, wb)
      \<Longrightarrow> a_addresses (answer m) \<noteq> []
      \<Longrightarrow> glueless (lookup (Suc (Suc 0)) glueless_net) referral_world
            (before @ ns_name # after) [] = Some (a_addresses (answer m), wb)"
    for before wa ns_name m wb after
    using t2 by blast
  have n3': "a_addresses (answer good_ns_answer) \<noteq> []"
    using n3 by simp
  have c2: "glueless (lookup (Suc (Suc 0)) glueless_net) referral_world
       [lost_ns_name, good_ns_name] [] = Some ([''10.0.0.53''], good_world)"
    using q [OF n1 n2 n3', of "[]"] n3 by simp
  have "attempt (lookup (Suc (Suc 0)) glueless_net) glueless_net empty_world (host_name, A)
       host_name A ''198.41.0.4''
      = (case glueless (lookup (Suc (Suc 0)) glueless_net) referral_world
                (ns_targets (authority bare_referral)) [] of
           None \<Rightarrow> None
         | Some (new_nameservers, w4) \<Rightarrow>
             Some (if new_nameservers \<noteq> [] then Break host_name new_nameservers
                   else Next, w4))"
    using t2 by blast
  then have c3: "attempt (lookup (Suc (Suc 0)) glueless_net) glueless_net empty_world
       (host_name, A) host_name A ''198.41.0.4''
     = Some (Break host_name [''10.0.0.53''], good_world)"
    unfolding b4 c2 by simp
  show ?thesis
    using c1 c2 c3 by blast
qed

section \<open>The nameserver set\<close>

lemmas stalled_defs =
  stalled_net_def delegated_world_def zone_world_def stalled_world_def stalled_referral_def
  lost_ns_reply_def host_answer_def com_ns_entry_def tld_ns_entry_def cached_nameservers_def
  host_name_def apex_name_def com_name_def tld_ns_name_def lost_ns_name_def

text \<open>
  A glueless referral without candidate addresses leads neither to the Root Hints nor to
  the empty response. The lookup of \<open>www.example.com.\<close> starts with the two cached
  addresses of the \<open>com.\<close> nameserver, none of them a root server. The referral of the
  first one resolves no nameserver address and the attempt ends without a new set; the
  second address of the same set is asked next, and its answer is the result.
\<close>

theorem glueless_failure_keeps_set:
  "initial_nameservers (cache delegated_world) host_name = [''192.5.6.30'', ''192.33.14.30'']
   \<and> attempt (lookup (Suc (Suc 0)) stalled_net) stalled_net delegated_world (host_name, A)
       host_name A ''192.5.6.30''
     = Some (Next, stalled_world)
   \<and> lookup (Suc (Suc (Suc 0))) stalled_net delegated_world host_name A
     = Some (Inr host_answer, put (host_name, A) host_answer stalled_world)
   \<and> answer host_answer \<noteq> []
   \<and> ''192.33.14.30'' \<notin> set ROOT_SERVERS"
  by (simp add: attempt_defs scenario_defs stalled_defs)

text \<open>
  C7, amended. The nameserver set of a lookup is never empty when a query attempt is
  made: the set a lookup starts with is not empty, and it is the Root Hints when no
  ancestor of the target has a cached address; a break of the loop over the nameservers
  always carries a non-empty set. When a glueless referral yields no candidate
  addresses, the current set is kept: the attempt ends without a break or a return and
  the loop goes on with the next nameserver of the same set.
\<close>

theorem nameserver_set_never_empty:
  "initial_nameservers c target_name \<noteq> []
   \<and> (find (usable_parent c) (parents target_name) = None \<longrightarrow>
        initial_nameservers c target_name = ROOT_SERVERS)
   \<and> (\<forall>t nss' w'.
        try_nameservers rec udp w cache_key current_target qtype nameservers
          = Some (Break t nss', w')
        \<longrightarrow> nss' \<noteq> [])
   \<and> (\<forall>response n' first others w3 w4.
        udp (net w) (make_query current_target qtype) ns = (Inr response, n')
        \<and> answer response = [] \<and> authority response = first # others
        \<and> ns_targets (authority response) \<noteq> []
        \<and> collect_glue (make_query current_target qtype) (additional response)
              (put_if_absent (name first, NS)
                 ((make_response (make_query current_target qtype))
                    \<lparr>answer := authority response\<rparr>) (w\<lparr>net := n'\<rparr>)) []
            = (Inr [], w3)
        \<and> glueless rec w3 (ns_targets (authority response)) [] = Some ([], w4)
        \<longrightarrow> attempt rec udp w cache_key current_target qtype ns = Some (Next, w4)
          \<and> try_nameservers rec udp w cache_key current_target qtype (ns # rest)
              = try_nameservers rec udp w4 cache_key current_target qtype rest)"
proof (intro conjI allI impI)
  show "initial_nameservers c target_name \<noteq> []"
    by (rule initial_nameservers_nonempty)
next
  assume "find (usable_parent c) (parents target_name) = None"
  then show "initial_nameservers c target_name = ROOT_SERVERS"
    using find_nameservers_find [of None c "parents target_name"]
    by (simp add: initial_nameservers_def)
next
  fix t nss' w'
  assume "try_nameservers rec udp w cache_key current_target qtype nameservers
      = Some (Break t nss', w')"
  then show "nss' \<noteq> []"
    by (rule try_nameservers_Break_nonempty)
next
  fix response n' first others w3 w4
  assume h: "udp (net w) (make_query current_target qtype) ns = (Inr response, n')
        \<and> answer response = [] \<and> authority response = first # others
        \<and> ns_targets (authority response) \<noteq> []
        \<and> collect_glue (make_query current_target qtype) (additional response)
              (put_if_absent (name first, NS)
                 ((make_response (make_query current_target qtype))
                    \<lparr>answer := authority response\<rparr>) (w\<lparr>net := n'\<rparr>)) []
            = (Inr [], w3)
        \<and> glueless rec w3 (ns_targets (authority response)) [] = Some ([], w4)"
  then have u: "udp (net w) (make_query current_target qtype) ns = (Inr response, n')"
    and e: "answer response = []"
    and f: "authority response = first # others"
    and t: "ns_targets (authority response) \<noteq> []"
    and g: "collect_glue (make_query current_target qtype) (additional response)
              (put_if_absent (name first, NS)
                 ((make_response (make_query current_target qtype))
                    \<lparr>answer := authority response\<rparr>) (w\<lparr>net := n'\<rparr>)) []
            = (Inr [], w3)"
    and l: "glueless rec w3 (ns_targets (authority response)) [] = Some ([], w4)"
    by blast+
  have ne: "authority response \<noteq> []"
    using f by simp
  have "referral rec (w\<lparr>net := n'\<rparr>) cache_key current_target
      (make_query current_target qtype) response = Some (Inr Next, w4)"
    unfolding referral_def Let_def using t g l by (simp add: f)
  then show a: "attempt rec udp w cache_key current_target qtype ns = Some (Next, w4)"
    using u e ne by (simp add: attempt_referral)
  show "try_nameservers rec udp w cache_key current_target qtype (ns # rest)
      = try_nameservers rec udp w4 cache_key current_target qtype rest"
    using a by simp
qed

theorem nameserver_set_never_empty_witness:
  "initial_nameservers (cache empty_world) host_name = ROOT_SERVERS
   \<and> initial_nameservers (cache delegated_world) host_name \<noteq> []
   \<and> try_nameservers no_lookup glue_net empty_world (host_name, A) host_name A
       [''198.41.0.4'']
     = Some (Break host_name [''192.5.6.30''], glue_world)
   \<and> attempt (lookup (Suc (Suc 0)) stalled_net) stalled_net delegated_world (host_name, A)
       host_name A ''192.5.6.30''
     = Some (Next, stalled_world)"
proof -
  note t = nameserver_set_never_empty [where udp = stalled_net and w = delegated_world
      and current_target = host_name and qtype = A and ns = "''192.5.6.30''"
      and rec = "lookup (Suc (Suc 0)) stalled_net" and cache_key = "(host_name, A)"]
  have f: "find (usable_parent (cache empty_world)) (parents host_name) = None"
    by (simp add: usable_parent_def empty_world_def parents_def host_name_def upt_rec)
  have c1: "initial_nameservers (cache empty_world) host_name = ROOT_SERVERS"
    using t [where c = "cache empty_world" and target_name = host_name] f by blast
  have c2: "initial_nameservers (cache delegated_world) host_name \<noteq> []"
    using t [where c = "cache delegated_world" and target_name = host_name] by blast
  have c3: "try_nameservers no_lookup glue_net empty_world (host_name, A) host_name A
       [''198.41.0.4'']
     = Some (Break host_name [''192.5.6.30''], glue_world)"
    by (simp add: attempt_defs scenario_defs glue_net_def glue_world_def com_referral_def
        host_name_def com_name_def tld_ns_name_def)
  have h1: "stalled_net (net delegated_world) (make_query host_name A) ''192.5.6.30''
      = (Inr stalled_referral, ())"
    by (simp add: stalled_net_def static_net_def make_query_def)
  have h2: "answer stalled_referral = []"
    by (simp add: stalled_referral_def)
  have h3: "authority stalled_referral
      = \<lparr>name = apex_name, rdata = NS_records [lost_ns_name]\<rparr> # []"
    by (simp add: stalled_referral_def)
  have h4: "ns_targets (authority stalled_referral) = [lost_ns_name]"
    by (simp add: stalled_referral_def)
  have h5: "collect_glue (make_query host_name A) (additional stalled_referral)
       (put_if_absent (name \<lparr>name = apex_name, rdata = NS_records [lost_ns_name]\<rparr>, NS)
          ((make_response (make_query host_name A))\<lparr>answer := authority stalled_referral\<rparr>)
          (delegated_world\<lparr>net := ()\<rparr>)) []
      = (Inr [], zone_world)"
    by (simp add: attempt_defs stalled_defs)
  have h6: "glueless (lookup (Suc (Suc 0)) stalled_net) zone_world
       (ns_targets (authority stalled_referral)) [] = Some ([], stalled_world)"
    unfolding h4 by (simp add: attempt_defs scenario_defs stalled_defs)
  have h4': "ns_targets (authority stalled_referral) \<noteq> []"
    using h4 by simp
  have c4: "attempt (lookup (Suc (Suc 0)) stalled_net) stalled_net delegated_world
       (host_name, A) host_name A ''192.5.6.30'' = Some (Next, stalled_world)"
    using t h1 h2 h3 h4' h5 h6 by blast
  show ?thesis
    using c1 c2 c3 c4 by blast
qed

section \<open>collect_results\<close>

lemma follow_cnames_stop:
  "lk w current_name CNAME = Some (Inr r, w1) \<Longrightarrow> first_cname (answer r) = None \<Longrightarrow>
   follow_cnames (Suc fuel) lk w current_name cnames = Some (Inr (cnames, current_name), w1)"
  by simp

lemma final_lookups_result:
  "lk w final_name A = Some (Inr ra, w4) \<Longrightarrow> lk w4 final_name AAAA = Some (Inr raaaa, w5) \<Longrightarrow>
   lk w5 final_name MX = Some (Inr rmx, w6) \<Longrightarrow>
   final_lookups lk w cnames final_name =
     Some (Inr \<lparr>res_CNAME = cnames, res_A = a_results (answer ra),
                res_AAAA = aaaa_results (answer raaaa),
                res_MX = mx_results (answer rmx)\<rparr>, w6)"
  by (simp add: final_lookups_def)

lemma follow_cnames_two_steps:
  assumes "lk w a CNAME = Some (Inr r1, w1)" and "first_cname (answer r1) = Some b"
    and "lk w1 b CNAME = Some (Inr r2, w2)" and "first_cname (answer r2) = Some c"
    and "lk w2 c CNAME = Some (Inr r3, w3)" and "first_cname (answer r3) = None"
  shows "follow_cnames (Suc (Suc (Suc k))) lk w a []
     = Some (Inr ([\<lparr>cname_name = b, cname_alias = a\<rparr>, \<lparr>cname_name = c, cname_alias = b\<rparr>], c),
             w3)"
  using assms by simp

lemma collect_with_chain:
  assumes "lk w a CNAME = Some (Inr r1, w1)" and "first_cname (answer r1) = Some b"
    and "lk w1 b CNAME = Some (Inr r2, w2)" and "first_cname (answer r2) = Some c"
    and "lk w2 c CNAME = Some (Inr r3, w3)" and "first_cname (answer r3) = None"
    and "lk w3 c A = Some (Inr ra, w4)" and "lk w4 c AAAA = Some (Inr raaaa, w5)"
    and "lk w5 c MX = Some (Inr rmx, w6)"
  shows "collect_with (Suc (Suc (Suc k))) lk w a
     = Some (Inr \<lparr>res_CNAME = [\<lparr>cname_name = b, cname_alias = a\<rparr>,
                                \<lparr>cname_name = c, cname_alias = b\<rparr>],
                  res_A = a_results (answer ra),
                  res_AAAA = aaaa_results (answer raaaa),
                  res_MX = mx_results (answer rmx)\<rparr>, w6)"
proof -
  have "follow_cnames (Suc (Suc (Suc k))) lk w a []
     = Some (Inr ([\<lparr>cname_name = b, cname_alias = a\<rparr>, \<lparr>cname_name = c, cname_alias = b\<rparr>], c),
             w3)"
    using assms(1-6) by (rule follow_cnames_two_steps)
  then show ?thesis
    unfolding collect_with_def
    using assms(7-9) by (simp add: final_lookups_result)
qed

lemma collect_with_no_alias:
  assumes "lk w a CNAME = Some (Inr r1, w1)" and "first_cname (answer r1) = None"
    and "lk w1 a A = Some (Inr ra, w4)" and "lk w4 a AAAA = Some (Inr raaaa, w5)"
    and "lk w5 a MX = Some (Inr rmx, w6)"
  shows "collect_with (Suc k) lk w a
     = Some (Inr \<lparr>res_CNAME = [],
                  res_A = a_results (answer ra),
                  res_AAAA = aaaa_results (answer raaaa),
                  res_MX = mx_results (answer rmx)\<rparr>, w6)"
proof -
  have "follow_cnames (Suc k) lk w a [] = Some (Inr ([], a), w1)"
    using assms(1-2) by (rule follow_cnames_stop)
  then show ?thesis
    unfolding collect_with_def
    using assms(3-5) by (simp add: final_lookups_result)
qed

text \<open>
  C9. When the CNAME lookup of \<open>a\<close> yields the alias target \<open>b\<close>, the one of \<open>b\<close>
  yields \<open>c\<close> and the one of \<open>c\<close> yields no CNAME record, \<open>collect_results\<close> for
  \<open>a\<close> returns the alias steps \<open>(a, b)\<close>, \<open>(b, c)\<close> in this order, and its address,
  IPv6 address and mail records are those of the A, AAAA and MX lookups of \<open>c\<close>. When the
  CNAME lookup of \<open>a\<close> yields no CNAME record, the list of alias steps is empty and the
  three lookups are those of \<open>a\<close> itself.
\<close>

theorem cname_chain_walk:
  "(3 \<le> n
    \<and> lookup n udp w a CNAME = Some (Inr r1, w1) \<and> first_cname (answer r1) = Some b
    \<and> lookup n udp w1 b CNAME = Some (Inr r2, w2) \<and> first_cname (answer r2) = Some c
    \<and> lookup n udp w2 c CNAME = Some (Inr r3, w3) \<and> first_cname (answer r3) = None
    \<and> lookup n udp w3 c A = Some (Inr ra, w4)
    \<and> lookup n udp w4 c AAAA = Some (Inr raaaa, w5)
    \<and> lookup n udp w5 c MX = Some (Inr rmx, w6)
    \<longrightarrow> collect_results n udp w a
          = Some (Inr \<lparr>res_CNAME = [\<lparr>cname_name = b, cname_alias = a\<rparr>,
                                     \<lparr>cname_name = c, cname_alias = b\<rparr>],
                       res_A = a_results (answer ra),
                       res_AAAA = aaaa_results (answer raaaa),
                       res_MX = mx_results (answer rmx)\<rparr>, w6))
   \<and> (1 \<le> n
      \<and> lookup n udp w a CNAME = Some (Inr r1, w1) \<and> first_cname (answer r1) = None
      \<and> lookup n udp w1 a A = Some (Inr ra, w4)
      \<and> lookup n udp w4 a AAAA = Some (Inr raaaa, w5)
      \<and> lookup n udp w5 a MX = Some (Inr rmx, w6)
      \<longrightarrow> collect_results n udp w a
            = Some (Inr \<lparr>res_CNAME = [],
                         res_A = a_results (answer ra),
                         res_AAAA = aaaa_results (answer raaaa),
                         res_MX = mx_results (answer rmx)\<rparr>, w6))"
proof (intro conjI impI)
  define lk where "lk = lookup n udp"
  assume h: "3 \<le> n
    \<and> lookup n udp w a CNAME = Some (Inr r1, w1) \<and> first_cname (answer r1) = Some b
    \<and> lookup n udp w1 b CNAME = Some (Inr r2, w2) \<and> first_cname (answer r2) = Some c
    \<and> lookup n udp w2 c CNAME = Some (Inr r3, w3) \<and> first_cname (answer r3) = None
    \<and> lookup n udp w3 c A = Some (Inr ra, w4)
    \<and> lookup n udp w4 c AAAA = Some (Inr raaaa, w5)
    \<and> lookup n udp w5 c MX = Some (Inr rmx, w6)"
  then have "3 \<le> n"
    by blast
  then have "\<exists>k. n = Suc (Suc (Suc k))"
    by arith
  then obtain k where n: "n = Suc (Suc (Suc k))" ..
  from h have s1: "lk w a CNAME = Some (Inr r1, w1)"
    and t1: "first_cname (answer r1) = Some b"
    and s2: "lk w1 b CNAME = Some (Inr r2, w2)"
    and t2: "first_cname (answer r2) = Some c"
    and s3: "lk w2 c CNAME = Some (Inr r3, w3)"
    and t3: "first_cname (answer r3) = None"
    and f1: "lk w3 c A = Some (Inr ra, w4)"
    and f2: "lk w4 c AAAA = Some (Inr raaaa, w5)"
    and f3: "lk w5 c MX = Some (Inr rmx, w6)"
    unfolding lk_def by blast+
  have "collect_with (Suc (Suc (Suc k))) lk w a
      = Some (Inr \<lparr>res_CNAME = [\<lparr>cname_name = b, cname_alias = a\<rparr>,
                                 \<lparr>cname_name = c, cname_alias = b\<rparr>],
                   res_A = a_results (answer ra),
                   res_AAAA = aaaa_results (answer raaaa),
                   res_MX = mx_results (answer rmx)\<rparr>, w6)"
    using s1 t1 s2 t2 s3 t3 f1 f2 f3 by (rule collect_with_chain)
  moreover have "collect_results n udp w a = collect_with (Suc (Suc (Suc k))) lk w a"
    unfolding collect_results_def lk_def by (subst (1) n) (rule refl)
  ultimately show "collect_results n udp w a
      = Some (Inr \<lparr>res_CNAME = [\<lparr>cname_name = b, cname_alias = a\<rparr>,
                                 \<lparr>cname_name = c, cname_alias = b\<rparr>],
                   res_A = a_results (answer ra),
                   res_AAAA = aaaa_results (answer raaaa),
                   res_MX = mx_results (answer rmx)\<rparr>, w6)"
    by (rule trans [OF _ _, rotated])
next
  define lk where "lk = lookup n udp"
  assume h: "1 \<le> n
      \<and> lookup n udp w a CNAME = Some (Inr r1, w1) \<and> first_cname (answer r1) = None
      \<and> lookup n udp w1 a A = Some (Inr ra, w4)
      \<and> lookup n udp w4 a AAAA = Some (Inr raaaa, w5)
      \<and> lookup n udp w5 a MX = Some (Inr rmx, w6)"
  then have "1 \<le> n"
    by blast
  then have "\<exists>k. n = Suc k"
    by arith
  then obtain k where n: "n = Suc k" ..
  from h have s1: "lk w a CNAME = Some (Inr r1, w1)"
    and t1: "first_cname (answer r1) = None"
    and f1: "lk w1 a A = Some (Inr ra, w4)"
    and f2: "lk w4 a AAAA = Some (Inr raaaa, w5)"
    and f3: "lk w5 a MX = Some (Inr rmx, w6)"
    unfolding lk_def by blast+
  have "collect_with (Suc k) lk w a
      = Some (Inr \<lparr>res_CNAME = [],
                   res_A = a_results (answer ra),
                   res_AAAA = aaaa_results (answer raaaa),
                   res_MX = mx_results (answer rmx)\<rparr>, w6)"
    using s1 t1 f1 f2 f3 by (rule collect_with_no_alias)
  moreover have "collect_results n udp w a = collect_with (Suc k) lk w a"
    unfolding collect_results_def lk_def by (subst (1) n) (rule refl)
  ultimately show "collect_results n udp w a
      = Some (Inr \<lparr>res_CNAME = [],
                   res_A = a_results (answer ra),
                   res_AAAA = aaaa_results (answer raaaa),
                   res_MX = mx_results (answer rmx)\<rparr>, w6)"
    by (rule trans [OF _ _, rotated])
qed

lemmas chain_defs =
  chain_net_def chain_world_def final_world_def host_to_web_def web_to_edge_def
  edge_no_cname_def edge_a_def edge_aaaa_def edge_mx_def host_name_def web_name_def
  edge_name_def

theorem cname_chain_walk_witness:
  "collect_results (Suc (Suc (Suc 0))) chain_net empty_world host_name
     = Some (Inr \<lparr>res_CNAME = [\<lparr>cname_name = web_name, cname_alias = host_name\<rparr>,
                                \<lparr>cname_name = edge_name, cname_alias = web_name\<rparr>],
                  res_A = [\<lparr>address_name = edge_name, address = ''203.0.113.7''\<rparr>],
                  res_AAAA = [\<lparr>address_name = edge_name, address = ''2001:db8::7''\<rparr>],
                  res_MX = [\<lparr>mx_name = edge_name, preference = 10,
                             exchange = [''mail'', ''cdn'', ''org'', '''']\<rparr>]\<rparr>,
             final_world chain_world)
   \<and> collect_results (Suc (Suc (Suc 0))) chain_net empty_world edge_name
     = Some (Inr \<lparr>res_CNAME = [],
                  res_A = [\<lparr>address_name = edge_name, address = ''203.0.113.7''\<rparr>],
                  res_AAAA = [\<lparr>address_name = edge_name, address = ''2001:db8::7''\<rparr>],
                  res_MX = [\<lparr>mx_name = edge_name, preference = 10,
                             exchange = [''mail'', ''cdn'', ''org'', '''']\<rparr>]\<rparr>,
             final_world (put (edge_name, CNAME) edge_no_cname empty_world))"
proof -
  let ?n = "Suc (Suc (Suc 0))"
  let ?w1 = "put (host_name, CNAME) host_to_web empty_world"
  let ?w2 = "put (web_name, CNAME) web_to_edge ?w1"
  let ?v = "put (edge_name, CNAME) edge_no_cname empty_world"
  have n3: "3 \<le> ?n" and n1: "1 \<le> ?n"
    by simp_all
  have s1: "lookup ?n chain_net empty_world host_name CNAME = Some (Inr host_to_web, ?w1)"
    by (simp add: attempt_defs scenario_defs chain_defs)
  have t1: "first_cname (answer host_to_web) = Some web_name"
    by (simp add: host_to_web_def)
  have s2: "lookup ?n chain_net ?w1 web_name CNAME = Some (Inr web_to_edge, ?w2)"
    by (simp add: attempt_defs scenario_defs chain_defs)
  have t2: "first_cname (answer web_to_edge) = Some edge_name"
    by (simp add: web_to_edge_def)
  have s3: "lookup ?n chain_net ?w2 edge_name CNAME = Some (Inr edge_no_cname, chain_world)"
    by (simp add: attempt_defs scenario_defs chain_defs)
  have t3: "first_cname (answer edge_no_cname) = None"
    by (simp add: edge_no_cname_def)
  have f1: "lookup ?n chain_net chain_world edge_name A
      = Some (Inr edge_a, put (edge_name, A) edge_a chain_world)"
    by (simp add: attempt_defs scenario_defs chain_defs)
  have f2: "lookup ?n chain_net (put (edge_name, A) edge_a chain_world) edge_name AAAA
      = Some (Inr edge_aaaa, put (edge_name, AAAA) edge_aaaa
                (put (edge_name, A) edge_a chain_world))"
    by (simp add: attempt_defs scenario_defs chain_defs)
  have f3: "lookup ?n chain_net
        (put (edge_name, AAAA) edge_aaaa (put (edge_name, A) edge_a chain_world)) edge_name MX
      = Some (Inr edge_mx, final_world chain_world)"
    by (simp add: attempt_defs scenario_defs chain_defs)
  have v1: "lookup ?n chain_net empty_world edge_name CNAME = Some (Inr edge_no_cname, ?v)"
    by (simp add: attempt_defs scenario_defs chain_defs)
  have g1: "lookup ?n chain_net ?v edge_name A = Some (Inr edge_a, put (edge_name, A) edge_a ?v)"
    by (simp add: attempt_defs scenario_defs chain_defs)
  have g2: "lookup ?n chain_net (put (edge_name, A) edge_a ?v) edge_name AAAA
      = Some (Inr edge_aaaa, put (edge_name, AAAA) edge_aaaa (put (edge_name, A) edge_a ?v))"
    by (simp add: attempt_defs scenario_defs chain_defs)
  have g3: "lookup ?n chain_net (put (edge_name, AAAA) edge_aaaa (put (edge_name, A) edge_a ?v))
        edge_name MX
      = Some (Inr edge_mx, final_world ?v)"
    by (simp add: attempt_defs scenario_defs chain_defs)
  have r: "a_results (answer edge_a) = [\<lparr>address_name = edge_name, address = ''203.0.113.7''\<rparr>]"
    "aaaa_results (answer edge_aaaa) = [\<lparr>address_name = edge_name, address = ''2001:db8::7''\<rparr>]"
    "mx_results (answer edge_mx) = [\<lparr>mx_name = edge_name, preference = 10,
                             exchange = [''mail'', ''cdn'', ''org'', '''']\<rparr>]"
    by (simp_all add: edge_a_def edge_aaaa_def edge_mx_def)
  note t = cname_chain_walk [where n = ?n and udp = chain_net and w = empty_world]
  have c1: "collect_results ?n chain_net empty_world host_name
     = Some (Inr \<lparr>res_CNAME = [\<lparr>cname_name = web_name, cname_alias = host_name\<rparr>,
                                \<lparr>cname_name = edge_name, cname_alias = web_name\<rparr>],
                  res_A = a_results (answer edge_a),
                  res_AAAA = aaaa_results (answer edge_aaaa),
                  res_MX = mx_results (answer edge_mx)\<rparr>,
             final_world chain_world)"
    using t [THEN conjunct1, rule_format, OF conjI [OF n3 conjI [OF s1 conjI [OF t1
        conjI [OF s2 conjI [OF t2 conjI [OF s3 conjI [OF t3 conjI [OF f1 conjI [OF f2 f3]]]]]]]]]]
    by this
  have c2: "collect_results ?n chain_net empty_world edge_name
     = Some (Inr \<lparr>res_CNAME = [],
                  res_A = a_results (answer edge_a),
                  res_AAAA = aaaa_results (answer edge_aaaa),
                  res_MX = mx_results (answer edge_mx)\<rparr>,
             final_world ?v)"
    using t [THEN conjunct2, rule_format, OF conjI [OF n1 conjI [OF v1 conjI [OF t3
        conjI [OF g1 conjI [OF g2 g3]]]]]]
    by this
  show ?thesis
    using c1 c2 unfolding r by (rule conjI)
qed

section \<open>Exceptions\<close>

text \<open>
  C10. No exception leaves an attempt. An exception of the transport, of whatever kind,
  ends the attempt and the loop goes on with the next nameserver; so does an exception
  raised while the response is classified, such as the IndexError of \<open>answer[0]\<close> on a
  CNAME set without records; an exception of a nested address lookup is swallowed and
  the next NS target is tried. The loop of lookup, entered with a non-empty nameserver
  set, never ends with an exception, and lookup never returns one to its caller.
\<close>

theorem attempt_exceptions_contained:
  "(\<forall>e n'. udp (net w) (make_query current_target qtype) ns = (Inl e, n') \<longrightarrow>
      attempt rec udp w cache_key current_target qtype ns = Some (Next, w\<lparr>net := n'\<rparr>)
      \<and> try_nameservers rec udp w cache_key current_target qtype (ns # rest)
          = try_nameservers rec udp (w\<lparr>net := n'\<rparr>) cache_key current_target qtype rest)
   \<and> (\<forall>response n' rs.
        udp (net w) (make_query current_target qtype) ns = (Inr response, n')
        \<and> qtype \<noteq> CNAME
        \<and> find (\<lambda>rs. rdtype rs = CNAME) (answer response) = Some rs
        \<and> rdata rs = CNAME_records []
        \<longrightarrow> attempt_body rec udp w cache_key current_target qtype ns
              = Some (Inl IndexError, w\<lparr>net := n'\<rparr>))
   \<and> (\<forall>e w'. attempt_body rec udp w cache_key current_target qtype ns = Some (Inl e, w') \<longrightarrow>
        attempt rec udp w cache_key current_target qtype ns = Some (Next, w')
        \<and> try_nameservers rec udp w cache_key current_target qtype (ns # rest)
            = try_nameservers rec udp w' cache_key current_target qtype rest)
   \<and> (\<forall>e wa wb ns_name names new_nameservers.
        rec wa ns_name A = Some (Inl e, wb) \<longrightarrow>
        glueless rec wa (ns_name # names) new_nameservers
          = glueless rec wb names new_nameservers)
   \<and> (\<forall>e w'. nameservers \<noteq> [] \<longrightarrow>
        resolve_loop fuel rec udp w cache_key current_target qtype nameservers outbound_query
          \<noteq> Some (Inl e, w'))
   \<and> (\<forall>e w'. lookup fuel udp w target_name qtype \<noteq> Some (Inl e, w'))"
proof (intro conjI allI impI)
  fix e n'
  assume "udp (net w) (make_query current_target qtype) ns = (Inl e, n')"
  then show a: "attempt rec udp w cache_key current_target qtype ns
      = Some (Next, w\<lparr>net := n'\<rparr>)"
    by (simp add: attempt_transport_error)
  show "try_nameservers rec udp w cache_key current_target qtype (ns # rest)
      = try_nameservers rec udp (w\<lparr>net := n'\<rparr>) cache_key current_target qtype rest"
    using a by simp
next
  fix response n' rs
  assume h: "udp (net w) (make_query current_target qtype) ns = (Inr response, n')
        \<and> qtype \<noteq> CNAME
        \<and> find (\<lambda>rs. rdtype rs = CNAME) (answer response) = Some rs
        \<and> rdata rs = CNAME_records []"
  then have "answer response \<noteq> []"
    by auto
  then show "attempt_body rec udp w cache_key current_target qtype ns
      = Some (Inl IndexError, w\<lparr>net := n'\<rparr>)"
    using h by (simp add: attempt_body_def answered_def)
next
  fix e w'
  assume "attempt_body rec udp w cache_key current_target qtype ns = Some (Inl e, w')"
  then show a: "attempt rec udp w cache_key current_target qtype ns = Some (Next, w')"
    by (simp add: attempt_def)
  show "try_nameservers rec udp w cache_key current_target qtype (ns # rest)
      = try_nameservers rec udp w' cache_key current_target qtype rest"
    using a by simp
next
  fix e wa wb ns_name names new_nameservers
  assume "rec wa ns_name A = Some (Inl e, wb)"
  then show "glueless rec wa (ns_name # names) new_nameservers
      = glueless rec wb names new_nameservers"
    by simp
next
  fix e w'
  assume "nameservers \<noteq> []"
  then show "resolve_loop fuel rec udp w cache_key current_target qtype nameservers
      outbound_query \<noteq> Some (Inl e, w')"
    using resolve_loop_exception by blast
next
  fix e w'
  show "lookup fuel udp w target_name qtype \<noteq> Some (Inl e, w')"
    by (rule lookup_never_raises)
qed

theorem attempt_exceptions_contained_witness:
  "attempt no_lookup faulty_net empty_world (host_name, A) host_name A ''198.41.0.4''
     = Some (Next, empty_world)
   \<and> attempt_body no_lookup faulty_net empty_world (host_name, AAAA) host_name AAAA
       ''198.41.0.4''
     = Some (Inl IndexError, empty_world)
   \<and> attempt no_lookup faulty_net empty_world (host_name, AAAA) host_name AAAA ''198.41.0.4''
     = Some (Next, empty_world)
   \<and> glueless raising_lookup empty_world [lost_ns_name] [] = Some ([], empty_world)
   \<and> lookup (Suc (Suc 0)) faulty_net empty_world host_name A
     = Some (Inr host_answer, put (host_name, A) host_answer empty_world)
   \<and> resolve_loop (Suc 0) no_lookup faulty_net empty_world (host_name, A) host_name A
       ROOT_SERVERS None
     \<noteq> Some (Inl UnboundLocalError, empty_world)"
proof -
  have e: "empty_world\<lparr>net := ()\<rparr> = empty_world"
    by (simp add: empty_world_def)
  note t1 = attempt_exceptions_contained [where udp = faulty_net and w = empty_world
      and current_target = host_name and qtype = A and ns = "''198.41.0.4''"
      and rec = no_lookup and cache_key = "(host_name, A)" and nameservers = ROOT_SERVERS
      and fuel = "Suc 0" and outbound_query = None and rest = "[]"
      and target_name = host_name]
  note t2 = attempt_exceptions_contained [where udp = faulty_net and w = empty_world
      and current_target = host_name and qtype = AAAA and ns = "''198.41.0.4''"
      and rec = no_lookup and cache_key = "(host_name, AAAA)" and nameservers = ROOT_SERVERS
      and fuel = "Suc 0" and outbound_query = None and rest = "[]"
      and target_name = host_name]
  note t3 = attempt_exceptions_contained [where udp = faulty_net and w = empty_world
      and current_target = host_name and qtype = A and ns = "''198.41.0.4''"
      and rec = raising_lookup and cache_key = "(host_name, A)" and nameservers = ROOT_SERVERS
      and fuel = "Suc 0" and outbound_query = None and rest = "[]"
      and target_name = host_name]
  have u1: "faulty_net (net empty_world) (make_query host_name A) ''198.41.0.4''
      = (Inl (OtherException 0), ())"
    by (simp add: faulty_net_def static_net_def make_query_def)
  have c1: "attempt no_lookup faulty_net empty_world (host_name, A) host_name A ''198.41.0.4''
     = Some (Next, empty_world)"
    using t1 u1 e by metis
  have u2: "faulty_net (net empty_world) (make_query host_name AAAA) ''198.41.0.4''
      = (Inr hollow_alias_reply, ())"
    by (simp add: faulty_net_def static_net_def make_query_def)
  have q2: "AAAA \<noteq> CNAME"
    by simp
  have f2: "find (\<lambda>rs. rdtype rs = CNAME) (answer hollow_alias_reply)
      = Some \<lparr>name = host_name, rdata = CNAME_records []\<rparr>"
    by (simp add: hollow_alias_reply_def rdtype_def)
  have r2: "rdata \<lparr>name = host_name, rdata = CNAME_records []\<rparr> = CNAME_records []"
    by simp
  have "attempt_body no_lookup faulty_net empty_world (host_name, AAAA) host_name AAAA
       ''198.41.0.4''
     = Some (Inl IndexError, empty_world\<lparr>net := ()\<rparr>)"
    using t2 u2 q2 f2 r2 by blast
  then have c2: "attempt_body no_lookup faulty_net empty_world (host_name, AAAA) host_name
       AAAA ''198.41.0.4'' = Some (Inl IndexError, empty_world)"
    unfolding e .
  have c3: "attempt no_lookup faulty_net empty_world (host_name, AAAA) host_name AAAA
       ''198.41.0.4'' = Some (Next, empty_world)"
    using t2 c2 by blast
  have n4: "raising_lookup empty_world lost_ns_name A = Some (Inl (OtherException 1), empty_world)"
    by (simp add: raising_lookup_def)
  have "glueless raising_lookup empty_world (lost_ns_name # []) []
      = glueless raising_lookup empty_world [] []"
    using t3 n4 by blast
  then have c4: "glueless raising_lookup empty_world [lost_ns_name] [] = Some ([], empty_world)"
    by simp
  have c5: "lookup (Suc (Suc 0)) faulty_net empty_world host_name A
     = Some (Inr host_answer, put (host_name, A) host_answer empty_world)"
    by (simp add: attempt_defs scenario_defs faulty_net_def host_answer_def host_name_def)
  have ne: "ROOT_SERVERS \<noteq> []"
    by (simp add: ROOT_SERVERS_def)
  have c6: "resolve_loop (Suc 0) no_lookup faulty_net empty_world (host_name, A) host_name A
       ROOT_SERVERS None \<noteq> Some (Inl UnboundLocalError, empty_world)"
    using t1 ne by blast
  show ?thesis
    using c1 c2 c3 c4 c5 c6 by blast
qed

end
